theory Spec2Isabelle
  imports Main "HOL-Library.Sublist" "HOL-Library.Char_ord" "HOL-Library.List_Lexorder"
begin

section \<open>Common notions\<close>

text \<open>
  Python exceptions that the modelled functions can raise. \<open>HTTPException n\<close> is the
  werkzeug exception raised by \<^verbatim>\<open>error(msg, status=n)\<close>; Flask turns it into a response
  with status \<open>n\<close>.
\<close>

datatype error =
  AssertionError | KeyError | IndexError | AttributeError | ValueError | HTTPException nat

text \<open>
  A protocol class (\<^verbatim>\<open>Protocol\<close> subclass) is represented by its class-level constants.
  \<^verbatim>\<open>LABEL\<close> is the lower-cased class name, so two classes are the same class exactly
  when these records are equal. Class methods that read the datastore or the network are
  passed separately, as functions of the protocol.
\<close>

record protocol =
  LABEL :: string
  ABBREV :: string
  HAS_COPIES :: bool

text \<open>\<^verbatim>\<open>common.SUPERDOMAIN\<close>.\<close>

definition SUPERDOMAIN :: string where
  "SUPERDOMAIN = ''.brid.gy''"

section \<open>ids.py: translating user ids and handles\<close>

text \<open>The attributes of a \<^verbatim>\<open>models.User\<close> entity that \<^verbatim>\<open>ids.py\<close> reads.\<close>

record user =
  key_id :: string
  atproto_did :: "string option"

text \<open>
  The protocol class methods used by \<^verbatim>\<open>ids.py\<close>. \<open>owns_id\<close> and \<open>owns_handle\<close>
  return \<^verbatim>\<open>True\<close>, \<^verbatim>\<open>False\<close> or \<^verbatim>\<open>None\<close>; the lookups return a user or \<^verbatim>\<open>None\<close>.
\<close>

record ids_env =
  owns_id :: "protocol \<Rightarrow> string \<Rightarrow> bool option"
  owns_handle :: "protocol \<Rightarrow> string \<Rightarrow> bool option"
  get_by_id :: "protocol \<Rightarrow> string \<Rightarrow> user option"
  get_for_copy :: "protocol \<Rightarrow> string \<Rightarrow> user option"

text \<open>
  Modelled from the spec: \<^verbatim>\<open>common.subdomain_wrap\<close>, which \<^verbatim>\<open>ids.py\<close> imports but
  which is not among the sources. The specification gives the wrapped form as
  \<^verbatim>\<open>https://<origin-abbrev>.<super-domain>/<dest-abbrev>/<id>\<close>; the caller passes the
  path \<^verbatim>\<open>/<dest-abbrev>/<id>\<close>.
\<close>

definition subdomain_wrap :: "protocol \<Rightarrow> string \<Rightarrow> string" where
  "subdomain_wrap proto path = ''https://'' @ ABBREV proto @ SUPERDOMAIN @ path"

text \<open>
  \<^verbatim>\<open>translate_user_id\<close>. The two \<^verbatim>\<open>assert\<close> statements come first, then the
  same-protocol shortcut, then the \<^verbatim>\<open>match\<close> cases in source order; the final
  \<^verbatim>\<open>assert False\<close> is the last branch. The result is a string or \<^verbatim>\<open>None\<close>.
\<close>

definition translate_user_id ::
    "ids_env \<Rightarrow> string \<Rightarrow> protocol \<Rightarrow> protocol \<Rightarrow> error + string option" where
  "translate_user_id env uid from_proto to_proto =
    (if uid = [] then Inl AssertionError
     else if owns_id env from_proto uid = Some False then Inl AssertionError
     else if from_proto = to_proto then Inr (Some uid)
     else if LABEL to_proto = ''atproto'' then
       Inr (case get_by_id env from_proto uid of
              Some u \<Rightarrow> atproto_did u
            | None \<Rightarrow> None)
     else if LABEL from_proto = ''atproto'' then
       Inr (case get_for_copy env from_proto uid of
              Some u \<Rightarrow> Some (key_id u)
            | None \<Rightarrow> None)
     else if LABEL to_proto = ''activitypub'' then
       Inr (Some (subdomain_wrap from_proto (''/ap/'' @ uid)))
     else if LABEL from_proto = ''activitypub'' \<and> LABEL to_proto = ''web'' then
       Inr (Some uid)
     else if LABEL to_proto = ''fake'' then Inr (Some (''fake:'' @ uid))
     else if LABEL from_proto = ''fake'' then Inr (Some uid)
     else Inl AssertionError)"

text \<open>Python's \<^verbatim>\<open>str.lstrip(c)\<close>, \<^verbatim>\<open>str.replace(a, b)\<close> and \<^verbatim>\<open>str.split(c)\<close> for
  single characters. \<open>split_on\<close> always returns at least one part, as Python does.\<close>

definition lstrip :: "char \<Rightarrow> string \<Rightarrow> string" where
  "lstrip c s = dropWhile (\<lambda>x. x = c) s"

definition replace_char :: "char \<Rightarrow> char \<Rightarrow> string \<Rightarrow> string" where
  "replace_char a b s = map (\<lambda>x. if x = a then b else x) s"

fun split_on :: "char \<Rightarrow> string \<Rightarrow> string list" where
  "split_on c [] = [[]]"
| "split_on c (x # xs) =
     (if x = c then [] # split_on c xs
      else (case split_on c xs of
              p # ps \<Rightarrow> (x # p) # ps
            | [] \<Rightarrow> [[x]]))"

text \<open>
  \<^verbatim>\<open>translate_handle\<close>. In the \<^verbatim>\<open>('activitypub', 'web')\<close> case the source unpacks the
  split handle into exactly two parts (a \<^verbatim>\<open>ValueError\<close> otherwise) and then returns the
  string literal \<^verbatim>\<open>f'instance/@user'\<close>, which has no placeholders.
\<close>

definition translate_handle ::
    "ids_env \<Rightarrow> string \<Rightarrow> protocol \<Rightarrow> protocol \<Rightarrow> error + string" where
  "translate_handle env handle from_proto to_proto =
    (if handle = [] then Inl AssertionError
     else if owns_handle env from_proto handle = Some False then Inl AssertionError
     else if from_proto = to_proto then Inr handle
     else if LABEL to_proto = ''activitypub'' then
       Inr (''@'' @ handle @ ''@'' @ ABBREV from_proto @ SUPERDOMAIN)
     else if LABEL to_proto = ''atproto'' \<or> LABEL to_proto = ''nostr'' then
       (let handle' = replace_char CHR ''@'' CHR ''.'' (lstrip CHR ''@'' handle)
        in Inr (handle' @ ''.'' @ ABBREV from_proto @ SUPERDOMAIN))
     else if LABEL from_proto = ''activitypub'' \<and> LABEL to_proto = ''web'' then
       (case split_on CHR ''@'' (lstrip CHR ''@'' handle) of
          [user, instance] \<Rightarrow> Inr ''instance/@user''
        | _ \<Rightarrow> Inl ValueError)
     else if LABEL to_proto = ''web'' then Inr handle
     else if LABEL to_proto = ''fake'' then Inr (''fake:handle:'' @ handle)
     else Inl AssertionError)"

text \<open>The protocol classes that the tests of \<^verbatim>\<open>ids.py\<close> use, and an environment in
  which every protocol answers \<^verbatim>\<open>None\<close> (unknown) to the ownership questions and no user
  is stored.\<close>

definition ActivityPub :: protocol where
  "ActivityPub = \<lparr>LABEL = ''activitypub'', ABBREV = ''ap'', HAS_COPIES = False\<rparr>"

definition Web :: protocol where
  "Web = \<lparr>LABEL = ''web'', ABBREV = ''web'', HAS_COPIES = False\<rparr>"

definition Fake :: protocol where
  "Fake = \<lparr>LABEL = ''fake'', ABBREV = ''fa'', HAS_COPIES = False\<rparr>"

definition empty_ids_env :: ids_env where
  "empty_ids_env = \<lparr>owns_id = (\<lambda>_ _. None), owns_handle = (\<lambda>_ _. None),
     get_by_id = (\<lambda>_ _. None), get_for_copy = (\<lambda>_ _. None)\<rparr>"

text \<open>The reading of the specification's default rule: the wrapped URL
  \<^verbatim>\<open>https://<origin-abbrev>.<super-domain>/<dest-abbrev>/<id>\<close>.\<close>

definition spec_subdomain_wrap_id :: "protocol \<Rightarrow> protocol \<Rightarrow> string \<Rightarrow> string" where
  "spec_subdomain_wrap_id from_proto to_proto uid =
     ''https://'' @ ABBREV from_proto @ SUPERDOMAIN @ ''/'' @ ABBREV to_proto @ ''/'' @ uid"

section \<open>protocol.py: the send task\<close>

text \<open>\<^verbatim>\<open>models.Target\<close>: a value type with field-wise equality.\<close>

record target =
  protocol :: string
  uri :: string

text \<open>The delivery state of a \<^verbatim>\<open>models.Object\<close>: the three repeated \<^verbatim>\<open>Target\<close>
  properties, in datastore order, and \<^verbatim>\<open>status\<close> (unset, or one of the status strings).\<close>

record object =
  undelivered :: "target list"
  delivered :: "target list"
  failed :: "target list"
  status :: "string option"

text \<open>\<^verbatim>\<open>common.add\<close>: append the value unless the sequence already contains it.\<close>

definition add :: "'a list \<Rightarrow> 'a \<Rightarrow> 'a list" where
  "add seq val = (if val \<notin> set seq then seq @ [val] else seq)"

text \<open>
  Modelled from the spec: \<^verbatim>\<open>Object.add\<close> and \<^verbatim>\<open>Object.remove\<close> of \<^verbatim>\<open>models.py\<close>,
  which is not among the sources. The specification's update adds a target to or removes
  it from one of the lists: \<open>obj_add\<close> is \<^verbatim>\<open>common.add\<close> on the property, and
  \<open>obj_remove\<close> deletes the value's first occurrence, as Python's \<^verbatim>\<open>list.remove\<close>
  does. Every call of \<open>obj_remove\<close> in the source is guarded by a membership test, so
  its failure on an absent value is never reached.
\<close>

definition obj_add :: "target list \<Rightarrow> target \<Rightarrow> target list" where
  "obj_add prop val = add prop val"

definition obj_remove :: "target list \<Rightarrow> target \<Rightarrow> target list" where
  "obj_remove prop val = remove1 val prop"

text \<open>
  The body of the transaction \<^verbatim>\<open>update_object\<close> inside \<^verbatim>\<open>send_task\<close>, on the entity it
  has read. \<open>sent\<close> is the source's variable: \<open>None\<close> when the plugin's \<^verbatim>\<open>send\<close>
  raised, otherwise the boolean it returned.
\<close>

definition update_object :: "target \<Rightarrow> bool option \<Rightarrow> object \<Rightarrow> object" where
  "update_object tgt sent obj =
    (let obj1 = (if tgt \<in> set (undelivered obj)
                 then obj\<lparr>undelivered := obj_remove (undelivered obj) tgt\<rparr>
                 else obj);
         obj2 = (case sent of
                   None \<Rightarrow> obj1\<lparr>failed := obj_add (failed obj1) tgt\<rparr>
                 | Some s \<Rightarrow>
                     (let obj1' = (if tgt \<in> set (failed obj1)
                                   then obj1\<lparr>failed := obj_remove (failed obj1) tgt\<rparr>
                                   else obj1)
                      in if s then obj1'\<lparr>delivered := obj_add (delivered obj1') tgt\<rparr>
                         else obj1'))
     in if undelivered obj2 = [] then
          obj2\<lparr>status := Some (if delivered obj2 \<noteq> [] then ''complete''
                                 else if failed obj2 \<noteq> [] then ''failed''
                                 else ''ignored'')\<rparr>
        else obj2)"

text \<open>The datastore, as far as the send task touches it: \<^verbatim>\<open>Object\<close> entities by url-safe
  key. The transaction reads the entity again by key, updates it and puts it back.\<close>

type_synonym datastore = "string \<rightharpoonup> object"

definition update_object_txn ::
    "target \<Rightarrow> bool option \<Rightarrow> string \<Rightarrow> datastore \<Rightarrow> error + datastore" where
  "update_object_txn tgt sent obj_key store =
    (case store obj_key of
       None \<Rightarrow> Inl AttributeError
     | Some obj \<Rightarrow> Inr (store(obj_key \<mapsto> update_object tgt sent obj)))"

text \<open>The Flask request: form fields and query arguments; \<^verbatim>\<open>request.values\<close> combines
  both.\<close>

record request =
  form :: "string \<rightharpoonup> string"
  args :: "string \<rightharpoonup> string"

definition in_request_values :: "string \<Rightarrow> request \<Rightarrow> bool" where
  "in_request_values k req = (form req k \<noteq> None \<or> args req k \<noteq> None)"

text \<open>
  What the send task finds around it: the registry \<^verbatim>\<open>PROTOCOLS\<close>, giving for a label
  the plugin's \<^verbatim>\<open>send\<close> (which returns a boolean or raises), and the stored users.
\<close>

record 'u send_env =
  PROTOCOLS_send ::
    "string \<rightharpoonup> (object \<Rightarrow> string \<Rightarrow> 'u option \<Rightarrow> object option \<Rightarrow> error + bool)"
  get_user :: "string \<rightharpoonup> 'u"

text \<open>The outcome of the handler: the HTTP status, the datastore afterwards, and the
  plugin sends that were invoked, as (protocol, url) pairs.\<close>

record send_response =
  code :: nat
  store_after :: datastore
  sends :: "(string \<times> string) list"

text \<open>
  \<^verbatim>\<open>send_task\<close>. A missing or empty \<^verbatim>\<open>url\<close> or \<^verbatim>\<open>protocol\<close> field answers 204 at once.
  \<^verbatim>\<open>form['obj']\<close> raises \<^verbatim>\<open>KeyError\<close> when the field is absent, and reading
  \<^verbatim>\<open>undelivered\<close> of a missing entity raises \<^verbatim>\<open>AttributeError\<close>. The lookup of the plugin
  in \<^verbatim>\<open>PROTOCOLS\<close> is inside the \<^verbatim>\<open>try\<close>, so an unknown label leaves \<open>sent\<close> at
  \<open>None\<close> like any exception of the plugin.
\<close>

definition send_task :: "'u send_env \<Rightarrow> request \<Rightarrow> datastore \<Rightarrow> error + send_response" where
  "send_task env req store =
    (case (form req ''url'', form req ''protocol'') of
       (Some url, Some proto) \<Rightarrow>
         if url = [] \<or> proto = [] then
           Inr \<lparr>code = 204, store_after = store, sends = []\<rparr>
         else
           (let tgt = \<lparr>protocol = proto, uri = url\<rparr> in
            case form req ''obj'' of
              None \<Rightarrow> Inl KeyError
            | Some obj_key \<Rightarrow>
               (case store obj_key of
                  None \<Rightarrow> Inl AttributeError
                | Some obj \<Rightarrow>
                   if tgt \<notin> set (undelivered obj) \<and> tgt \<notin> set (failed obj)
                      \<and> \<not> in_request_values ''force'' req
                   then Inr \<lparr>code = 204, store_after = store, sends = []\<rparr>
                   else
                     (let user = (case form req ''user'' of
                                    None \<Rightarrow> None
                                  | Some user_key \<Rightarrow>
                                      if user_key = [] then None
                                      else get_user env user_key);
                          orig_obj = (case form req ''orig_obj'' of
                                        None \<Rightarrow> None
                                      | Some k \<Rightarrow> if k = [] then None else store k);
                          (sent, called) =
                             (case PROTOCOLS_send env proto of
                                None \<Rightarrow> (None, [])
                              | Some send \<Rightarrow>
                                  (case send obj url user orig_obj of
                                     Inl e \<Rightarrow> (None, [(proto, url)])
                                   | Inr b \<Rightarrow> (Some b, [(proto, url)])))
                      in case update_object_txn tgt sent obj_key store of
                           Inl e \<Rightarrow> Inl e
                         | Inr store' \<Rightarrow>
                             Inr \<lparr>code = (if sent = Some True then 200
                                          else if sent = Some False then 204
                                          else 304),
                                  store_after = store', sends = called\<rparr>)))
     | _ \<Rightarrow> Inr \<lparr>code = 204, store_after = store, sends = []\<rparr>)"

text \<open>Scenario S5 of the specification: Object \<open>O\<close> with \<open>undelivered = [T1]\<close>, stored
  under the key \<open>obj-key\<close>; a plugin \<open>fake\<close> whose send always succeeds; the send task's
  form for the target \<open>T1\<close>.\<close>

definition T1 :: target where
  "T1 = \<lparr>protocol = ''fake'', uri = ''fake:inbox''\<rparr>"

definition O_new :: object where
  "O_new = \<lparr>undelivered = [T1], delivered = [], failed = [], status = Some ''in progress''\<rparr>"

definition O_done :: object where
  "O_done = \<lparr>undelivered = [], delivered = [T1], failed = [], status = Some ''complete''\<rparr>"

definition S5_env :: "unit send_env" where
  "S5_env = \<lparr>PROTOCOLS_send = [''fake'' \<mapsto> (\<lambda>obj url user orig_obj. Inr True)],
             get_user = Map.empty\<rparr>"

definition S5_request :: request where
  "S5_request = \<lparr>form = [''url'' \<mapsto> ''fake:inbox'', ''protocol'' \<mapsto> ''fake'',
                          ''obj'' \<mapsto> ''obj-key''],
                 args = Map.empty\<rparr>"

text \<open>
  The value of the source's variable \<open>sent\<close> when \<^verbatim>\<open>send_task\<close> has passed its \<^verbatim>\<open>try\<close>
  block, for the stored Object \<open>obj\<close> and the form's protocol and url: \<open>None\<close> when
  the plugin's \<^verbatim>\<open>send\<close> raised (or \<^verbatim>\<open>PROTOCOLS[protocol]\<close> did), otherwise the boolean
  that \<^verbatim>\<open>send\<close> returned. The user and the original object are read as in
  \<open>send_task\<close>.
\<close>

definition sent_by_plugin ::
    "'u send_env \<Rightarrow> request \<Rightarrow> datastore \<Rightarrow> string \<Rightarrow> string \<Rightarrow> object \<Rightarrow> bool option" where
  "sent_by_plugin env req store proto url obj =
    (let user = (case form req ''user'' of
                   None \<Rightarrow> None
                 | Some user_key \<Rightarrow> if user_key = [] then None else get_user env user_key);
         orig_obj = (case form req ''orig_obj'' of
                       None \<Rightarrow> None
                     | Some k \<Rightarrow> if k = [] then None else store k)
     in case PROTOCOLS_send env proto of
          None \<Rightarrow> None
        | Some send \<Rightarrow>
            (case send obj url user orig_obj of
               Inl e \<Rightarrow> None
             | Inr b \<Rightarrow> Some b))"

text \<open>A second target; an Object with both targets pending; and Objects whose target
  lists hold a target twice or share a target between \<open>undelivered\<close> and
  \<open>delivered\<close>.\<close>

definition T2 :: target where
  "T2 = \<lparr>protocol = ''fake'', uri = ''fake:other''\<rparr>"

definition O_twice_undelivered :: object where
  "O_twice_undelivered =
     \<lparr>undelivered = [T1, T1], delivered = [], failed = [], status = Some ''in progress''\<rparr>"

definition O_twice_failed :: object where
  "O_twice_failed =
     \<lparr>undelivered = [], delivered = [], failed = [T1, T1], status = Some ''failed''\<rparr>"

definition O_two :: object where
  "O_two =
     \<lparr>undelivered = [T1, T2], delivered = [], failed = [], status = Some ''in progress''\<rparr>"

definition O_overlapping :: object where
  "O_overlapping =
     \<lparr>undelivered = [T1, T2], delivered = [T2], failed = [], status = Some ''in progress''\<rparr>"

section \<open>common.py: the bridge's domains and redirect wrapping\<close>

definition PRIMARY_DOMAIN :: string where
  "PRIMARY_DOMAIN = ''fed.brid.gy''"

definition OTHER_DOMAINS :: "string list" where
  "OTHER_DOMAINS = [''ap.brid.gy'', ''atp.brid.gy'', ''atproto.brid.gy'',
     ''bluesky.brid.gy'', ''bsky.brid.gy'', ''bridgy-federated.appspot.com'',
     ''bridgy-federated.uc.r.appspot.com'', ''fa.brid.gy'', ''nostr.brid.gy'',
     ''web.brid.gy'']"

definition LOCAL_DOMAINS :: "string list" where
  "LOCAL_DOMAINS = [''localhost'', ''localhost:8080'', ''my.dev.com:8080'']"

definition DOMAINS :: "string list" where
  "DOMAINS = [PRIMARY_DOMAIN] @ OTHER_DOMAINS @ LOCAL_DOMAINS"

text \<open>Python's \<^verbatim>\<open>str.startswith\<close> and \<^verbatim>\<open>str.removeprefix\<close>.\<close>

definition startswith :: "string \<Rightarrow> string \<Rightarrow> bool" where
  "startswith val p = prefix p val"

definition removeprefix :: "string \<Rightarrow> string \<Rightarrow> string" where
  "removeprefix val p = (if prefix p val then drop (length p) val else val)"

text \<open>
  \<^verbatim>\<open>re.match(DOMAIN_RE, path)\<close> for
  \<^verbatim>\<open>DOMAIN_RE = r'^([^/:;@?!\']+\.)+[^/:@_?!\']+$'\<close>. The character class of the
  repeated group admits the dot, so the pattern matches exactly the strings \<open>u.t\<close>
  with \<open>u\<close> non-empty and free of \<^verbatim>\<open>/:;@?!'\<close> and \<open>t\<close> non-empty and free of
  \<^verbatim>\<open>/:@_?!'\<close>; \<open>i\<close> below is the position of the separating dot.
\<close>

definition DOMAIN_RE_match :: "string \<Rightarrow> bool" where
  "DOMAIN_RE_match path =
     list_ex (\<lambda>i. path ! i = CHR ''.'' \<and> 0 < i
                 \<and> list_all (\<lambda>c. c \<notin> set ''/:;@?!'' \<and> c \<noteq> CHR 0x27) (take i path)
                 \<and> drop (Suc i) path \<noteq> []
                 \<and> list_all (\<lambda>c. c \<notin> set ''/:@_?!'' \<and> c \<noteq> CHR 0x27)
                      (drop (Suc i) path))
       [0..<length path]"

text \<open>
  The functions of \<^verbatim>\<open>oauth_dropins.webutil.util\<close> that \<^verbatim>\<open>common.py\<close> calls, and the
  \<^verbatim>\<open>DEBUG\<close> flag of \<^verbatim>\<open>appengine_info\<close>; they belong to a library and are parameters
  here.
\<close>

record webutil =
  is_web :: "string \<Rightarrow> bool"
  domain_from_link :: "string \<Rightarrow> string option"
  domain_or_parent_in :: "string \<Rightarrow> string list \<Rightarrow> bool"
  DEBUG :: bool

text \<open>The Flask request that \<^verbatim>\<open>host_url\<close> reads: \<^verbatim>\<open>request.host\<close>, and the scheme of
  \<^verbatim>\<open>request.host_url\<close>, which is \<^verbatim>\<open><scheme>://<host>/\<close>.\<close>

record host_request =
  scheme :: string
  host :: string

text \<open>
  \<^verbatim>\<open>host_url(path_query)\<close>, for an absolute path such as \<^verbatim>\<open>/r/\<close>, the argument that
  \<^verbatim>\<open>redirect_wrap\<close> passes: \<^verbatim>\<open>urljoin\<close> of the base and an absolute path keeps the
  base's scheme and host and takes the path.
\<close>

definition host_url :: "webutil \<Rightarrow> host_request \<Rightarrow> string \<Rightarrow> string" where
  "host_url util request path_query =
    (let base = (if domain_or_parent_in util (host request) OTHER_DOMAINS
                    \<or> (\<not> DEBUG util \<and> host request \<in> set LOCAL_DOMAINS)
                 then ''https://'' @ PRIMARY_DOMAIN
                 else scheme request @ ''://'' @ host request)
     in base @ path_query)"

text \<open>\<^verbatim>\<open>redirect_wrap\<close>. The argument may be \<^verbatim>\<open>None\<close> or empty, which is returned as it
  is.\<close>

definition redirect_wrap ::
    "webutil \<Rightarrow> host_request \<Rightarrow> string option \<Rightarrow> string option" where
  "redirect_wrap util request url =
    (case url of
       None \<Rightarrow> None
     | Some u \<Rightarrow>
         if u = [] then Some u
         else (case domain_from_link util u of
                 Some d \<Rightarrow> if d \<in> set DOMAINS then Some u
                           else Some (host_url util request ''/r/'' @ u)
               | None \<Rightarrow> Some (host_url util request ''/r/'' @ u)))"

text \<open>The values \<^verbatim>\<open>redirect_unwrap\<close> accepts: a string, a dict, a list, or anything
  else.\<close>

datatype pyval = Str string | PList "pyval list" | PDict "(string \<times> pyval) list" | POther

text \<open>
  The string case of \<^verbatim>\<open>redirect_unwrap\<close>: the loop over \<^verbatim>\<open>DOMAINS\<close> and, inside, over
  the two schemes. \<open>None\<close> means that the loops ended without a \<^verbatim>\<open>return\<close>.
\<close>

definition unwrap_scheme :: "webutil \<Rightarrow> string \<Rightarrow> string \<Rightarrow> string \<Rightarrow> string option" where
  "unwrap_scheme util val domain sch =
    (let base = sch @ ''://'' @ domain @ ''/'';
         redirect_prefix = base @ ''r/''
     in if startswith val redirect_prefix then
          (let unwrapped = removeprefix val redirect_prefix
           in if is_web util unwrapped then Some unwrapped else None)
        else if startswith val base then
          (let path = removeprefix val base
           in if DOMAIN_RE_match path then Some (''https://'' @ path @ ''/'') else None)
        else None)"

fun unwrap_domains :: "webutil \<Rightarrow> string \<Rightarrow> string list \<Rightarrow> string option" where
  "unwrap_domains util val [] = None"
| "unwrap_domains util val (domain # domains) =
    (case unwrap_scheme util val domain ''http'' of
       Some r \<Rightarrow> Some r
     | None \<Rightarrow>
        (case unwrap_scheme util val domain ''https'' of
           Some r \<Rightarrow> Some r
         | None \<Rightarrow> unwrap_domains util val domains))"

fun redirect_unwrap :: "webutil \<Rightarrow> pyval \<Rightarrow> pyval" where
  "redirect_unwrap util (PDict kvs) =
     PDict (map (\<lambda>kv. (fst kv, redirect_unwrap util (snd kv))) kvs)"
| "redirect_unwrap util (PList vs) = PList (map (redirect_unwrap util) vs)"
| "redirect_unwrap util (Str val) =
     (case unwrap_domains util val DOMAINS of
        Some r \<Rightarrow> Str r
      | None \<Rightarrow> Str val)"
| "redirect_unwrap util POther = POther"

text \<open>
  The request is served on one of the bridge's own domains: either \<^verbatim>\<open>host_url\<close>
  replaces the base by the primary domain, or the request's own host is in
  \<^verbatim>\<open>DOMAINS\<close> (with an http or https scheme).
\<close>

definition served_on_bridge :: "webutil \<Rightarrow> host_request \<Rightarrow> bool" where
  "served_on_bridge util request \<longleftrightarrow>
     domain_or_parent_in util (host request) OTHER_DOMAINS
     \<or> (\<not> DEBUG util \<and> host request \<in> set LOCAL_DOMAINS)
     \<or> (host request \<in> set DOMAINS \<and> (scheme request = ''http'' \<or> scheme request = ''https''))"

text \<open>Stand-ins for the library functions on the inputs of the examples below: a URL
  is a web URL when it starts with \<^verbatim>\<open>http://\<close> or \<^verbatim>\<open>https://\<close>, and the domain of
  \<^verbatim>\<open>https://foo.com/bar\<close> is \<^verbatim>\<open>foo.com\<close>.\<close>

definition example_webutil :: webutil where
  "example_webutil =
     \<lparr>is_web = (\<lambda>s. startswith s ''http://'' \<or> startswith s ''https://''),
      domain_from_link = (\<lambda>s. if s = ''https://foo.com/bar'' then Some ''foo.com'' else None),
      domain_or_parent_in = (\<lambda>d ds. d \<in> set ds),
      DEBUG = False\<rparr>"

definition bridge_request :: host_request where
  "bridge_request = \<lparr>scheme = ''https'', host = ''fed.brid.gy''\<rparr>"

section \<open>redirect.py: the redirect and content-negotiation endpoint\<close>

definition DOMAIN_ALLOWLIST :: "string list" where
  "DOMAIN_ALLOWLIST = [''bsky.app'']"

text \<open>The content types of \<^verbatim>\<open>granary.as2\<close>.\<close>

definition as2_CONTENT_TYPE :: string where
  "as2_CONTENT_TYPE = ''application/activity+json''"

definition as2_CONTENT_TYPE_LD :: string where
  "as2_CONTENT_TYPE_LD = ''application/ld+json''"

definition as2_CONTENT_TYPE_LD_PROFILE :: string where
  "as2_CONTENT_TYPE_LD_PROFILE =
     ''application/ld+json; profile='' @ [CHR 0x22]
       @ ''https://www.w3.org/ns/activitystreams'' @ [CHR 0x22]"

text \<open>
  \<^verbatim>\<open>re.sub(r'^(https?:/)([^/])', r'\1/\2', to)\<close>: when the string starts with
  \<^verbatim>\<open>http:/\<close> or \<^verbatim>\<open>https:/\<close> followed by a character other than a slash, a second
  slash is inserted; any other string is left as it is.
\<close>

definition expand_scheme_slash :: "string \<Rightarrow> string" where
  "expand_scheme_slash to =
    (if startswith to ''https:/'' then
       (case removeprefix to ''https:/'' of
          c # rest \<Rightarrow> if c \<noteq> CHR ''/'' then ''https://'' @ c # rest else to
        | [] \<Rightarrow> to)
     else if startswith to ''http:/'' then
       (case removeprefix to ''http:/'' of
          c # rest \<Rightarrow> if c \<noteq> CHR ''/'' then ''http://'' @ c # rest else to
        | [] \<Rightarrow> to)
     else to)"

text \<open>The request as \<^verbatim>\<open>redir\<close> reads it: the query arguments and the \<^verbatim>\<open>Accept\<close>
  header.\<close>

record redir_request =
  query_args :: "(string \<times> string) list"
  accept_header :: "string option"

text \<open>
  What the endpoint calls. Library functions: \<^verbatim>\<open>urllib.parse.urlencode\<close>,
  \<^verbatim>\<open>util.is_web\<close>, \<^verbatim>\<open>urlparse(to).hostname\<close> (which may raise \<^verbatim>\<open>ValueError\<close>),
  the negotiator (which may raise, and otherwise returns the negotiated content type or
  nothing), \<^verbatim>\<open>util.domain_from_link\<close> with its \<^verbatim>\<open>minimize\<close> flag, and the order in
  which Python iterates over the set built from the three domains. Datastore and
  network: \<^verbatim>\<open>Web.get_by_id\<close>, \<^verbatim>\<open>Protocol.for_id\<close>, \<^verbatim>\<open>proto.load\<close>,
  \<^verbatim>\<open>Web.get_or_create\<close> and \<^verbatim>\<open>ActivityPub.convert\<close>; \<open>'u\<close> is a stored user, \<open>'o\<close>
  a loaded object, \<open>'b\<close> a converted payload.
\<close>

record ('u, 'o, 'b) redir_env =
  urlencode :: "(string \<times> string) list \<Rightarrow> string"
  util_is_web :: "string \<Rightarrow> bool"
  urlparse_hostname :: "string \<Rightarrow> error + string option"
  negotiate :: "string \<Rightarrow> error + string option"
  util_domain_from_link :: "string \<Rightarrow> bool \<Rightarrow> string option"
  set_iteration :: "string option list \<Rightarrow> string option list"
  Web_get_by_id :: "string \<Rightarrow> 'u option"
  Protocol_for_id :: "string \<Rightarrow> error + protocol option"
  proto_load :: "protocol \<Rightarrow> string \<Rightarrow> error + 'o option"
  obj_deleted :: "'o \<Rightarrow> bool"
  Web_get_or_create :: "string option \<Rightarrow> 'o \<Rightarrow> 'u option"
  ActivityPub_convert :: "'o \<Rightarrow> 'u option \<Rightarrow> error + 'b"

text \<open>The calls that reach the datastore or the network, in the order made.\<close>

datatype redir_event =
    Ev_get_by_id string
  | Ev_for_id string
  | Ev_load string
  | Ev_get_or_create
  | Ev_convert

record 'b response =
  status_code :: nat
  location :: "string option"
  content_type :: "string option"
  body :: "'b option"

definition plain_response :: "nat \<Rightarrow> 'b response" where
  "plain_response n = \<lparr>status_code = n, location = None, content_type = None, body = None\<rparr>"

text \<open>The URL that the endpoint works on: the path with the query string put back and
  the scheme's slashes expanded.\<close>

definition requested_url :: "('u, 'o, 'b) redir_env \<Rightarrow> redir_request \<Rightarrow> string \<Rightarrow> string" where
  "requested_url env request to =
     expand_scheme_slash
       (if query_args request \<noteq> [] then to @ ''?'' @ urlencode env (query_args request)
        else to)"

text \<open>
  Content negotiation: \<open>Inr (Some t)\<close> when the \<^verbatim>\<open>Accept\<close> header negotiates the
  content type \<open>t\<close>, \<open>Inr None\<close> without a header, without a match or on the
  negotiator's \<^verbatim>\<open>ValueError\<close>; any other exception propagates.
\<close>

definition negotiated_type :: "('u, 'o, 'b) redir_env \<Rightarrow> redir_request \<Rightarrow> error + string option" where
  "negotiated_type env request =
    (case accept_header request of
       None \<Rightarrow> Inr None
     | Some accept \<Rightarrow>
         if accept = [] then Inr None
         else (case negotiate env accept of
                 Inl e \<Rightarrow> if e = ValueError then Inr None else Inl e
               | Inr negotiated \<Rightarrow> Inr negotiated))"

text \<open>\<open>accept_as2\<close> of the source, together with \<open>accept_type\<close>: \<open>Some t\<close> when the
  negotiated type \<open>t\<close> is one of the two AS2 content types (\<open>accept_as2\<close> is true),
  \<open>None\<close> otherwise.\<close>

definition accept_as2 :: "string option \<Rightarrow> string option" where
  "accept_as2 negotiated =
    (case negotiated of
       None \<Rightarrow> None
     | Some accept_type \<Rightarrow>
         if accept_type \<in> {as2_CONTENT_TYPE, as2_CONTENT_TYPE_LD} then Some accept_type
         else None)"

text \<open>
  The \<^verbatim>\<open>for domain in domains\<close> loop. The result says whether the loop ended in a
  \<^verbatim>\<open>break\<close>, gives \<^verbatim>\<open>web_user\<close> and lists the lookups made.
\<close>

fun check_domains ::
    "('u, 'o, 'b) redir_env \<Rightarrow> string option list \<Rightarrow> bool \<times> 'u option \<times> redir_event list" where
  "check_domains env [] = (False, None, [])"
| "check_domains env (d # ds) =
    (case d of
       None \<Rightarrow> check_domains env ds
     | Some domain \<Rightarrow>
         if domain = [] then check_domains env ds
         else if domain \<in> set DOMAIN_ALLOWLIST then (True, None, [])
         else (case Web_get_by_id env domain of
                 Some u \<Rightarrow> (True, Some u, [Ev_get_by_id domain])
               | None \<Rightarrow>
                   (case check_domains env ds of
                      (broke, web_user, evs) \<Rightarrow> (broke, web_user, Ev_get_by_id domain # evs))))"

text \<open>The last part of \<^verbatim>\<open>redir\<close>: AS2 was requested; resolve the protocol, load,
  convert and serve.\<close>

definition serve_as2 ::
    "('u, 'o, 'b) redir_env \<Rightarrow> string \<Rightarrow> string \<Rightarrow> 'u option
       \<Rightarrow> (error + 'b response) \<times> redir_event list" where
  "serve_as2 env to accept_type web_user =
    (case Protocol_for_id env to of
       Inl e \<Rightarrow> (Inl e, [Ev_for_id to])
     | Inr None \<Rightarrow> (Inr (plain_response 404), [Ev_for_id to])
     | Inr (Some proto) \<Rightarrow>
        (case proto_load env proto to of
           Inl e \<Rightarrow> (Inl e, [Ev_for_id to, Ev_load to])
         | Inr None \<Rightarrow> (Inr (plain_response 404), [Ev_for_id to, Ev_load to])
         | Inr (Some obj) \<Rightarrow>
            if obj_deleted env obj then
              (Inr (plain_response 404), [Ev_for_id to, Ev_load to])
            else
              (let (user, evs) =
                     (if proto = Web \<and> web_user = None then
                        (Web_get_or_create env (util_domain_from_link env to True) obj,
                         [Ev_get_or_create])
                      else (web_user, []))
               in if proto = Web \<and> user = None then
                    (Inr (plain_response 404), [Ev_for_id to, Ev_load to] @ evs)
                  else
                    (case ActivityPub_convert env obj user of
                       Inl e \<Rightarrow> (Inl e, [Ev_for_id to, Ev_load to] @ evs @ [Ev_convert])
                     | Inr ret \<Rightarrow>
                         (Inr \<lparr>status_code = 200, location = None,
                               content_type =
                                 Some (if accept_type = as2_CONTENT_TYPE_LD
                                       then as2_CONTENT_TYPE_LD_PROFILE else accept_type),
                               body = Some ret\<rparr>,
                          [Ev_for_id to, Ev_load to] @ evs @ [Ev_convert])))))"

text \<open>
  \<^verbatim>\<open>redir\<close>. \<^verbatim>\<open>error(...)\<close> aborts with status 400. The result pairs the response, or
  the exception that ends the request, with the datastore and network calls made.
\<close>

definition redir ::
    "('u, 'o, 'b) redir_env \<Rightarrow> redir_request \<Rightarrow> string
       \<Rightarrow> (error + 'b response) \<times> redir_event list" where
  "redir env request to0 =
    (let to = requested_url env request to0 in
     if \<not> util_is_web env to then (Inl (HTTPException 400), [])
     else
      (case urlparse_hostname env to of
         Inl e \<Rightarrow> (if e = ValueError then Inl (HTTPException 400) else Inl e, [])
       | Inr to_domain \<Rightarrow>
          (case negotiated_type env request of
             Inl e \<Rightarrow> (Inl e, [])
           | Inr negotiated \<Rightarrow>
              (let domains = set_iteration env
                     [util_domain_from_link env to True, util_domain_from_link env to False,
                      to_domain]
               in case check_domains env domains of
                    (broke, web_user, evs) \<Rightarrow>
                      (case accept_as2 negotiated of
                         None \<Rightarrow>
                           if \<not> broke then (Inr (plain_response 404), evs)
                           else (Inr \<lparr>status_code = 301, location = Some to,
                                      content_type = None, body = None\<rparr>, evs)
                       | Some accept_type \<Rightarrow>
                           (case serve_as2 env to accept_type web_user of
                              (r, evs') \<Rightarrow> (r, evs @ evs')))))))"

text \<open>
  An example setting for the endpoint: a URL is a web URL when it starts with
  \<^verbatim>\<open>http://\<close> or \<^verbatim>\<open>https://\<close>; every URL has the domain \<^verbatim>\<open>foo.com\<close>; the negotiator
  grants the requested type; no Web user is stored; every id belongs to Web and loads
  (the loaded object is represented by its id); \<^verbatim>\<open>Web.get_or_create\<close> makes a user
  named by the domain; conversion returns the object.
\<close>

definition example_redir_env :: "(string, string, string) redir_env" where
  "example_redir_env =
     \<lparr>urlencode = (\<lambda>_. []),
      util_is_web = (\<lambda>s. startswith s ''http://'' \<or> startswith s ''https://''),
      urlparse_hostname = (\<lambda>_. Inr (Some ''foo.com'')),
      negotiate = (\<lambda>accept. Inr (Some accept)),
      util_domain_from_link = (\<lambda>_ _. Some ''foo.com''),
      set_iteration = remdups,
      Web_get_by_id = (\<lambda>_. None),
      Protocol_for_id = (\<lambda>_. Inr (Some Web)),
      proto_load = (\<lambda>_ i. Inr (Some i)),
      obj_deleted = (\<lambda>_. False),
      Web_get_or_create = (\<lambda>d _. d),
      ActivityPub_convert = (\<lambda>obj _. Inr obj)\<rparr>"

definition as2_request :: redir_request where
  "as2_request = \<lparr>query_args = [], accept_header = Some ''application/activity+json''\<rparr>"

definition html_request :: redir_request where
  "html_request = \<lparr>query_args = [], accept_header = None\<rparr>"

section \<open>protocol.py: receiving an activity\<close>

text \<open>An AS1 object is a Python dict: keys with their values, in insertion order.\<close>

type_synonym as1 = "(string \<times> pyval) list"

definition dict_get :: "as1 \<Rightarrow> string \<Rightarrow> pyval option" where
  "dict_get d k = map_of d k"

text \<open>
  The attributes of a \<^verbatim>\<open>models.Object\<close> that \<^verbatim>\<open>receive\<close> and \<^verbatim>\<open>targets\<close> read:
  the id of its key (if the key is set), the AS1 data, the transient \<^verbatim>\<open>new\<close> and
  \<^verbatim>\<open>changed\<close> flags (\<^verbatim>\<open>True\<close>, \<^verbatim>\<open>False\<close> or \<^verbatim>\<open>None\<close>), \<^verbatim>\<open>type\<close>,
  \<^verbatim>\<open>source_protocol\<close> and \<^verbatim>\<open>copies\<close>.
\<close>

record activity =
  object_key_id :: "string option"
  as1 :: "as1 option"
  new :: "bool option"
  changed :: "bool option"
  obj_type :: "string option"
  source_protocol :: "string option"
  copies :: "target list"

text \<open>
  \<^verbatim>\<open>seen_ids = LRUCache(100000)\<close> of \<^verbatim>\<open>cachetools\<close>, as the list of its keys from
  least to most recently used. \<^verbatim>\<open>id in seen_ids\<close> does not change the order;
  \<^verbatim>\<open>seen_ids[id] = True\<close> moves a present key to the end, and for a new key first
  evicts from the front while the cache is full.
\<close>

definition seen_ids_maxsize :: nat where
  "seen_ids_maxsize = 100000"

definition lru_setitem :: "string \<Rightarrow> string list \<Rightarrow> string list" where
  "lru_setitem k ks =
    (if k \<in> set ks then remove1 k ks @ [k]
     else drop (length ks + 1 - seen_ids_maxsize) ks @ [k])"

text \<open>The state that \<^verbatim>\<open>receive\<close> works on: the process-wide \<^verbatim>\<open>seen_ids\<close> cache and the
  datastore \<open>'d\<close>.\<close>

record 'd receive_state =
  seen_ids :: "string list"
  datastore :: 'd

text \<open>
  What \<^verbatim>\<open>receive\<close> and \<^verbatim>\<open>targets\<close> both call, besides the ownership test of
  \<open>ids_env\<close>: \<^verbatim>\<open>as1.get_owner\<close> of granary, and the class method
  \<^verbatim>\<open>is_blocklisted(url, allow_internal)\<close>, which subclasses may override.
\<close>

record protocol_env = ids_env +
  get_owner :: "as1 \<Rightarrow> string option"
  is_blocklisted :: "protocol \<Rightarrow> string \<Rightarrow> bool \<Rightarrow> bool"

text \<open>
  For \<^verbatim>\<open>receive\<close> in addition: whether \<^verbatim>\<open>from_cls.load(id, remote=False)\<close> finds a
  stored object (a datastore read); \<^verbatim>\<open>ids.normalize_user_id\<close>, imported from
  \<^verbatim>\<open>ids.py\<close> but not among the sources; and \<open>pipeline\<close>, everything that \<^verbatim>\<open>receive\<close>
  does after the authorization check (normalising ids, loading the actor's user,
  persisting the Object, dispatch per verb, follow handling and delivery). The pipeline
  gets the Object, its id and the normalised actor; it returns or raises, may write the
  datastore and creates tasks \<open>'t\<close>. It does not refer to \<^verbatim>\<open>seen_ids\<close>.
\<close>

record ('d, 't) receive_env = protocol_env +
  load_stored :: "protocol \<Rightarrow> 'd \<Rightarrow> string \<Rightarrow> bool"
  normalize_user_id :: "protocol \<Rightarrow> string \<Rightarrow> string"
  pipeline :: "protocol \<Rightarrow> activity \<Rightarrow> string \<Rightarrow> string \<Rightarrow> 'd
                 \<Rightarrow> (error + nat) \<times> 'd \<times> 't list"

text \<open>The id that \<^verbatim>\<open>receive\<close> settles on: the key's id if the key is set and its id is
  non-empty, otherwise the \<^verbatim>\<open>id\<close> field of the AS1 data (a string).\<close>

definition activity_id :: "activity \<Rightarrow> as1 \<Rightarrow> string option" where
  "activity_id obj a =
    (let from_as1 = (case dict_get a ''id'' of Some (Str i) \<Rightarrow> Some i | _ \<Rightarrow> None)
     in case object_key_id obj of
          Some k \<Rightarrow> if k \<noteq> [] then Some k else from_as1
        | None \<Rightarrow> from_as1)"

text \<open>The condition under which \<^verbatim>\<open>receive\<close> answers "already handled"; the id is
  looked up in \<^verbatim>\<open>seen_ids\<close> before it is recorded there.\<close>

definition already_handled ::
    "('d, 't, 'z) receive_env_scheme \<Rightarrow> protocol \<Rightarrow> activity \<Rightarrow> string \<Rightarrow> 'd receive_state
       \<Rightarrow> bool" where
  "already_handled env from_cls obj i st =
    (i \<in> set (seen_ids st)
     \<or> (new obj = Some False \<and> changed obj = Some False)
     \<or> (new obj = None \<and> changed obj = None \<and> load_stored env from_cls (datastore st) i))"

text \<open>
  \<^verbatim>\<open>Protocol.receive\<close> on the class \<open>from_cls\<close>. \<open>force\<close> says whether \<^verbatim>\<open>force\<close> is
  in \<^verbatim>\<open>request.values\<close>. A returned \<^verbatim>\<open>(msg, status)\<close> is \<open>Inr status\<close>; \<^verbatim>\<open>error(...)\<close>
  raises the HTTP exception with its status (400 by default). The result also gives the
  state afterwards and the tasks created. \<^verbatim>\<open>report_error\<close>, which only notifies the
  error reporting service, is left out.
\<close>

definition receive ::
    "('d, 't, 'z) receive_env_scheme \<Rightarrow> protocol \<Rightarrow> activity \<Rightarrow> string option \<Rightarrow> bool \<Rightarrow> bool
       \<Rightarrow> 'd receive_state \<Rightarrow> (error + nat) \<times> 'd receive_state \<times> 't list" where
  "receive env from_cls obj authed_as internal force st =
    (case as1 obj of
       None \<Rightarrow> (Inl (HTTPException 400), st, [])
     | Some a \<Rightarrow>
       if a = [] then (Inl (HTTPException 400), st, [])
       else
        (case activity_id obj a of
           None \<Rightarrow> (Inl (HTTPException 400), st, [])
         | Some i \<Rightarrow>
           if i = [] then (Inl (HTTPException 400), st, [])
           else if is_blocklisted env from_cls i internal then
             (Inl (HTTPException 400), st, [])
           else
            (let dedup = (dict_get a ''objectType'' = Some (Str ''activity'') \<and> \<not> force);
                 st1 = (if dedup then st\<lparr>seen_ids := lru_setitem i (seen_ids st)\<rparr> else st)
             in if dedup \<and> already_handled env from_cls obj i st then (Inr 204, st1, [])
                else
                 (case get_owner env a of
                    None \<Rightarrow> (Inl (HTTPException 400), st1, [])
                  | Some actor \<Rightarrow>
                    if actor = [] then (Inl (HTTPException 400), st1, [])
                    else if owns_id env from_cls actor = Some False then
                      (Inl (HTTPException 204), st1, [])
                    else
                     (case authed_as of
                        None \<Rightarrow> (Inl AssertionError, st1, [])
                      | Some authed \<Rightarrow>
                        if authed = [] then (Inl AssertionError, st1, [])
                        else
                         (let authed' = normalize_user_id env from_cls authed;
                              actor' = normalize_user_id env from_cls actor
                          in if actor' \<noteq> authed' then (Inl (HTTPException 403), st1, [])
                             else
                              (case pipeline env from_cls (obj\<lparr>object_key_id := Some i\<rparr>) i
                                      actor' (datastore st1) of
                                 (r, d, tasks) \<Rightarrow> (r, st1\<lparr>datastore := d\<rparr>, tasks))))))))"

text \<open>A sequence of calls of \<^verbatim>\<open>receive\<close> in one process, each given by its class, Object,
  \<^verbatim>\<open>authed_as\<close>, \<^verbatim>\<open>internal\<close> and force flag; the result is the state after the last
  call.\<close>

fun receive_all ::
    "('d, 't, 'z) receive_env_scheme
       \<Rightarrow> (protocol \<times> activity \<times> string option \<times> bool \<times> bool) list
       \<Rightarrow> 'd receive_state \<Rightarrow> 'd receive_state" where
  "receive_all env [] st = st"
| "receive_all env ((from_cls, obj, authed_as, internal, force) # calls) st =
     receive_all env calls (fst (snd (receive env from_cls obj authed_as internal force st)))"

text \<open>
  An example setting: the owner of an activity is its \<^verbatim>\<open>actor\<close> field, nothing is
  blocklisted, ids are already normal, ownership is unknown, the datastore is the list
  of stored ids, and the pipeline answers 202 after storing the activity's id and
  creating one task.
\<close>

definition example_receive_env :: "(string list, string) receive_env" where
  "example_receive_env =
     \<lparr>owns_id = (\<lambda>_ _. None), owns_handle = (\<lambda>_ _. None),
      get_by_id = (\<lambda>_ _. None), get_for_copy = (\<lambda>_ _. None),
      get_owner = (\<lambda>a. case dict_get a ''actor'' of Some (Str x) \<Rightarrow> Some x | _ \<Rightarrow> None),
      is_blocklisted = (\<lambda>_ _ _. False),
      load_stored = (\<lambda>_ d i. i \<in> set d),
      normalize_user_id = (\<lambda>_ i. i),
      pipeline = (\<lambda>_ _ i _ d. (Inr 202, i # d, [''send'']))\<rparr>"

text \<open>The follow of scenario S1, as handed to \<^verbatim>\<open>receive\<close> by the receive task
  (\<^verbatim>\<open>new = True\<close>).\<close>

definition follow_activity :: activity where
  "follow_activity =
     \<lparr>object_key_id = None,
      as1 = Some [(''id'', Str ''f1''), (''objectType'', Str ''activity''),
                  (''verb'', Str ''follow''), (''actor'', Str ''https://inst/alice''),
                  (''object'', Str ''https://w-user.example/'')],
      new = Some True, changed = None, obj_type = Some ''follow'',
      source_protocol = Some ''activitypub'', copies = []\<rparr>"

section \<open>protocol.py: the delivery planner\<close>

text \<open>An \<^verbatim>\<open>ndb.Key\<close> of a user: the \<^verbatim>\<open>User\<close> subclass it belongs to, which is the
  protocol class (\<^verbatim>\<open>key.kind()\<close> is the \<^verbatim>\<open>_get_kind()\<close> of that class), and its id.\<close>

record key =
  key_class :: protocol
  key_ident :: string

text \<open>
  A \<^verbatim>\<open>models.User\<close> as \<^verbatim>\<open>targets\<close> reads it: its key, whose class is the class of the
  entity and so gives \<^verbatim>\<open>user.LABEL\<close> and \<^verbatim>\<open>user.target_for\<close>, its profile object
  \<^verbatim>\<open>user.obj\<close> as loaded by \<^verbatim>\<open>User.load_multi\<close>, and \<^verbatim>\<open>enabled_protocols\<close>.
\<close>

record user_entity =
  u_key :: key
  u_obj :: "activity option"
  enabled_protocols :: "string list"

text \<open>A \<^verbatim>\<open>Follower\<close> entity: the keys \<^verbatim>\<open>from_\<close> and \<^verbatim>\<open>to\<close> and the \<^verbatim>\<open>status\<close>. The
  datastore's \<^verbatim>\<open>Follower\<close> entities are a list of these.\<close>

record follower =
  f_from :: key
  f_to :: key
  f_status :: string

text \<open>
  Modelled from the spec: \<^verbatim>\<open>models.py\<close> is not among the sources. What \<^verbatim>\<open>key_for\<close>
  reads of the user that \<^verbatim>\<open>cls.get_by_id(id, allow_opt_out=True)\<close> returns: the id of
  its key and its \<^verbatim>\<open>status\<close>. The lookup is made in the kind of \<open>cls\<close> and follows
  \<^verbatim>\<open>use_instead\<close>, the pointer to the canonical record of a duplicate id, so the user
  it returns is a user of \<open>cls\<close> whose id may differ from the one asked for.
\<close>

record stored_user =
  su_ident :: string
  su_status :: "string option"

text \<open>
  What \<^verbatim>\<open>targets\<close> calls. From granary: \<^verbatim>\<open>as1.targets\<close>, \<^verbatim>\<open>as1.get_object\<close> and
  \<^verbatim>\<open>as1.get_ids\<close>. From the protocol classes: \<^verbatim>\<open>Protocol.for_id\<close>, \<^verbatim>\<open>load\<close>,
  the registry \<^verbatim>\<open>PROTOCOLS\<close>, \<^verbatim>\<open>_get_kind\<close>, \<^verbatim>\<open>target_for(obj, shared)\<close>,
  \<^verbatim>\<open>get_by_id(id, allow_opt_out=True)\<close> and \<^verbatim>\<open>Protocol.for_bridgy_subdomain\<close>. From
  the datastore: the users by key (\<^verbatim>\<open>ndb.get_multi\<close>). From webutil:
  \<^verbatim>\<open>util.dedupe_urls(..., trailing_slash=False)\<close>. Constants defined outside the
  sources: \<^verbatim>\<open>LIMITED_DOMAINS\<close> (read from a file) and \<^verbatim>\<open>ATProto.PDS_URL\<close>.
\<close>

record targets_env = protocol_env +
  as1_targets :: "as1 \<Rightarrow> string list"
  as1_get_object :: "as1 \<Rightarrow> as1"
  as1_get_ids :: "as1 \<Rightarrow> string \<Rightarrow> string list"
  for_id :: "string \<Rightarrow> protocol option"
  load :: "protocol \<Rightarrow> string \<Rightarrow> activity option"
  PROTOCOLS :: "string \<rightharpoonup> protocol"
  get_kind :: "protocol \<Rightarrow> string"
  target_for :: "protocol \<Rightarrow> activity \<Rightarrow> bool \<Rightarrow> string option"
  get_by_id_opt_out :: "protocol \<Rightarrow> string \<Rightarrow> stored_user option"
  for_bridgy_subdomain :: "string \<Rightarrow> protocol option"
  get_multi :: "key \<Rightarrow> user_entity option"
  dedupe_urls :: "string list \<Rightarrow> string list"
  LIMITED_DOMAINS :: "string list"
  PDS_URL :: string

text \<open>The map from \<^verbatim>\<open>Target\<close> to the original Object or \<^verbatim>\<open>None\<close>: a Python dict, in
  insertion order. \<open>dict_set\<close> is the assignment \<^verbatim>\<open>d[k] = v\<close>, \<open>dict_setdefault\<close> is
  \<^verbatim>\<open>d.setdefault(k, v)\<close>.\<close>

type_synonym target_map = "(target \<times> activity option) list"

fun dict_set :: "'k \<Rightarrow> 'v \<Rightarrow> ('k \<times> 'v) list \<Rightarrow> ('k \<times> 'v) list" where
  "dict_set k v [] = [(k, v)]"
| "dict_set k v ((k', v') # d) =
     (if k' = k then (k, v) # d else (k', v') # dict_set k v d)"

definition dict_setdefault :: "'k \<Rightarrow> 'v \<Rightarrow> ('k \<times> 'v) list \<Rightarrow> ('k \<times> 'v) list" where
  "dict_setdefault k v d = (if k \<in> fst ` set d then d else d @ [(k, v)])"

text \<open>\<^verbatim>\<open>sorted(set(xs))\<close> on strings.\<close>

definition sorted_set :: "string list \<Rightarrow> string list" where
  "sorted_set xs = sort (remdups xs)"

text \<open>\<^verbatim>\<open>as1.get_owner\<close> of data that may be \<^verbatim>\<open>None\<close>.\<close>

definition owner_of :: "'z protocol_env_scheme \<Rightarrow> as1 option \<Rightarrow> string option" where
  "owner_of env a = (case a of None \<Rightarrow> None | Some d \<Rightarrow> get_owner env d)"

text \<open>A string-valued field of AS1 data.\<close>

definition str_field :: "as1 \<Rightarrow> string \<Rightarrow> string option" where
  "str_field a k = (case dict_get a k of Some (Str v) \<Rightarrow> Some v | _ \<Rightarrow> None)"

text \<open>
  \<^verbatim>\<open>key_for\<close> on a concrete protocol class \<open>cls\<close> (on the base class \<^verbatim>\<open>Protocol\<close> it
  first picks the class with \<^verbatim>\<open>for_id\<close>): the key of the existing user, \<^verbatim>\<open>None\<close> if
  that user has a status, and otherwise the key of a new \<^verbatim>\<open>cls(id=id)\<close>. Either way
  the key is a key of \<open>cls\<close>.
\<close>

definition key_for :: "'z targets_env_scheme \<Rightarrow> protocol \<Rightarrow> string \<Rightarrow> key option" where
  "key_for env cls uid =
    (case get_by_id_opt_out env cls uid of
       Some existing \<Rightarrow>
         if su_status existing \<noteq> None \<and> su_status existing \<noteq> Some [] then None
         else Some \<lparr>key_class = cls, key_ident = su_ident existing\<rparr>
     | None \<Rightarrow> Some \<lparr>key_class = cls, key_ident = uid\<rparr>)"

text \<open>\<^verbatim>\<open>actor_key\<close>: the key of the object's owner, if it has one.\<close>

definition actor_key :: "'z targets_env_scheme \<Rightarrow> protocol \<Rightarrow> activity \<Rightarrow> key option" where
  "actor_key env cls obj =
    (case owner_of env (as1 obj) of
       None \<Rightarrow> None
     | Some owner \<Rightarrow> if owner = [] then None else key_for env cls owner)"

text \<open>\<^verbatim>\<open>Follower.query(Follower.to == user_key, Follower.status == 'active')\<close>.\<close>

definition active_followers :: "key \<Rightarrow> follower list \<Rightarrow> follower list" where
  "active_followers user_key tbl =
     filter (\<lambda>f. f_to f = user_key \<and> f_status f = ''active'') tbl"

text \<open>\<^verbatim>\<open>[u for u in ndb.get_multi(user_keys) if u]\<close>: for each key the entity stored
  under it, if there is one; its key is the key it was fetched by.\<close>

definition get_multi_users :: "'z targets_env_scheme \<Rightarrow> key list \<Rightarrow> user_entity list" where
  "get_multi_users env user_keys =
     List.map_filter (\<lambda>k. map_option (\<lambda>u. u\<lparr>u_key := k\<rparr>) (get_multi env k)) user_keys"

text \<open>
  The kinds added to \<^verbatim>\<open>in_reply_to_protocols\<close> for the copies of an in-reply-to
  object; \<^verbatim>\<open>PROTOCOLS[c.protocol]\<close> raises \<^verbatim>\<open>KeyError\<close> for an unknown label.
\<close>

fun copies_kinds :: "'z targets_env_scheme \<Rightarrow> target list \<Rightarrow> error + string list" where
  "copies_kinds env [] = Inr []"
| "copies_kinds env (c # cs) =
    (case PROTOCOLS env (protocol c) of
       None \<Rightarrow> Inl KeyError
     | Some p \<Rightarrow>
        (case copies_kinds env cs of
           Inl e \<Rightarrow> Inl e
         | Inr ks \<Rightarrow> Inr (get_kind env p # ks)))"

text \<open>
  The loop over \<^verbatim>\<open>in_reply_tos\<close>: it collects \<^verbatim>\<open>in_reply_to_protocols\<close> (a set in the
  source; only membership and emptiness are used) and \<^verbatim>\<open>in_reply_to_owners\<close>.
\<close>

fun in_reply_to_info ::
    "'z targets_env_scheme \<Rightarrow> string option \<Rightarrow> string list
       \<Rightarrow> error + (string list \<times> string list)" where
  "in_reply_to_info env src [] = Inr ([], [])"
| "in_reply_to_info env src (in_reply_to # rest) =
    (case for_id env in_reply_to of
       None \<Rightarrow> in_reply_to_info env src rest
     | Some proto \<Rightarrow>
        (case load env proto in_reply_to of
           None \<Rightarrow> in_reply_to_info env src rest
         | Some in_reply_to_obj \<Rightarrow>
            (case (if Some (LABEL proto) \<noteq> src then Inr [get_kind env proto]
                   else copies_kinds env (copies in_reply_to_obj)) of
               Inl e \<Rightarrow> Inl e
             | Inr kinds \<Rightarrow>
                (let owners = (case owner_of env (as1 in_reply_to_obj) of
                                 None \<Rightarrow> []
                               | Some reply_owner \<Rightarrow>
                                   if reply_owner = [] then [] else [reply_owner])
                 in case in_reply_to_info env src rest of
                      Inl e \<Rightarrow> Inl e
                    | Inr (ks, os) \<Rightarrow> Inr (kinds @ ks, owners @ os)))))"

text \<open>
  One round of the loop over the direct target ids. The loop's variables are the map
  \<^verbatim>\<open>targets\<close>, \<^verbatim>\<open>is_self_reply\<close> and \<^verbatim>\<open>orig_obj\<close>, which keeps the last loaded object
  after the loop.
\<close>

definition direct_target ::
    "'z targets_env_scheme \<Rightarrow> protocol \<Rightarrow> string option \<Rightarrow> string list \<Rightarrow> string
       \<Rightarrow> target_map \<times> bool \<times> activity option \<Rightarrow> target_map \<times> bool \<times> activity option" where
  "direct_target env cls owner in_reply_to_owners ident state =
    (case state of (targets, is_self_reply, orig_obj) \<Rightarrow>
      (case for_id env ident of
         None \<Rightarrow> state
       | Some proto \<Rightarrow>
          if is_blocklisted env proto ident False then state
          else
           (case load env proto ident of
              None \<Rightarrow> (targets, is_self_reply, None)
            | Some orig \<Rightarrow>
               if as1 orig = None \<or> as1 orig = Some [] then (targets, is_self_reply, Some orig)
               else
                (let self' = (is_self_reply \<or> owner = owner_of env (as1 orig))
                 in if proto = cls \<and> LABEL cls \<noteq> ''fake'' then (targets, self', Some orig)
                    else if ident \<in> set in_reply_to_owners then (targets, self', Some orig)
                    else
                     (case target_for env proto orig False of
                        None \<Rightarrow> (targets, self', Some orig)
                      | Some tgt \<Rightarrow>
                          if tgt = [] then (targets, self', Some orig)
                          else (dict_set \<lparr>protocol = LABEL proto, uri = tgt\<rparr> (Some orig) targets,
                                self', Some orig))))))"

text \<open>One round of the loop over the followers' users; \<^verbatim>\<open>dedupe_urls([target])[0]\<close>
  raises \<^verbatim>\<open>IndexError\<close> on an empty result.\<close>

fun follower_targets ::
    "'z targets_env_scheme \<Rightarrow> activity option \<Rightarrow> user_entity list \<Rightarrow> target_map
       \<Rightarrow> error + target_map" where
  "follower_targets env value [] targets = Inr targets"
| "follower_targets env value (u # users) targets =
    (case (case u_obj u of
             None \<Rightarrow> None
           | Some profile \<Rightarrow> target_for env (key_class (u_key u)) profile True) of
       None \<Rightarrow> follower_targets env value users targets
     | Some tgt \<Rightarrow>
         if tgt = [] then follower_targets env value users targets
         else
          (case dedupe_urls env [tgt] of
             [] \<Rightarrow> Inl IndexError
           | tgt' # _ \<Rightarrow>
               follower_targets env value users
                 (dict_set \<lparr>protocol = LABEL (key_class (u_key u)), uri = tgt'\<rparr> value
                    targets)))"

text \<open>The keys of a dict built from pairs, in first-insertion order, and its lookup, in
  which a later pair with the same key replaces the earlier one.\<close>

definition dict_keys :: "('k \<times> 'v) list \<Rightarrow> 'k list" where
  "dict_keys kvs = rev (remdups (rev (map fst kvs)))"

definition dict_lookup :: "('k \<times> 'v) list \<Rightarrow> 'k \<Rightarrow> 'v option" where
  "dict_lookup kvs k = map_of (rev kvs) k"

text \<open>The last loop: the de-duplicated candidate URLs in sorted order, leaving out those
  on a source domain; \<^verbatim>\<open>candidates[url]\<close> raises \<^verbatim>\<open>KeyError\<close> for a URL that
  \<^verbatim>\<open>dedupe_urls\<close> has changed.\<close>

fun final_targets ::
    "webutil \<Rightarrow> string option list \<Rightarrow> (string \<times> target \<times> activity option) list
       \<Rightarrow> string list \<Rightarrow> target_map \<Rightarrow> error + target_map" where
  "final_targets util source_domains candidates [] targets = Inr targets"
| "final_targets util source_domains candidates (url # urls) targets =
    (if is_web util url \<and> domain_from_link util url \<in> set source_domains then
       final_targets util source_domains candidates urls targets
     else
       (case dict_lookup candidates url of
          None \<Rightarrow> Inl KeyError
        | Some (tgt, orig) \<Rightarrow>
            final_targets util source_domains candidates urls (dict_set tgt orig targets)))"

text \<open>\<^verbatim>\<open>util.domain_or_parent_in(util.domain_from_link(x), LIMITED_DOMAINS)\<close>; without a
  domain the answer is no.\<close>

definition on_limited_domain :: "webutil \<Rightarrow> 'z targets_env_scheme \<Rightarrow> string option \<Rightarrow> bool" where
  "on_limited_domain util env x =
    (case x of
       None \<Rightarrow> False
     | Some s \<Rightarrow>
        (case domain_from_link util s of
           None \<Rightarrow> False
         | Some d \<Rightarrow> domain_or_parent_in util d (LIMITED_DOMAINS env)))"

text \<open>
  The part of \<^verbatim>\<open>targets\<close> that delivers to followers: the active \<^verbatim>\<open>Follower\<close>
  entities to \<open>user_key\<close> in the datastore's list \<open>tbl\<close> whose \<^verbatim>\<open>from_\<close> is not a
  protocol bot user, for a reply only those of a kind in \<^verbatim>\<open>in_reply_to_protocols\<close>;
  the ATProto PDS as an extra target if the sender has enabled \<^verbatim>\<open>atproto\<close>; then one
  target per follower's user. \<open>direct\<close> is the map \<^verbatim>\<open>targets\<close> as the loop over the
  direct targets left it.
\<close>

definition follower_fan_out ::
    "webutil \<Rightarrow> 'z targets_env_scheme \<Rightarrow> follower list \<Rightarrow> activity \<Rightarrow> user_entity \<Rightarrow> key
       \<Rightarrow> bool \<Rightarrow> string list \<Rightarrow> target_map \<Rightarrow> activity option \<Rightarrow> error + target_map" where
  "follower_fan_out util env tbl obj from_user user_key is_reply in_reply_to_protocols direct
       orig_obj =
    (let followers = filter (\<lambda>f. for_bridgy_subdomain env (key_ident (f_from f)) = None)
                       (active_followers user_key tbl);
         user_keys = (if is_reply
                      then filter (\<lambda>k. get_kind env (key_class k) \<in> set in_reply_to_protocols)
                             (map f_from followers)
                      else map f_from followers);
         users = get_multi_users env user_keys;
         with_atproto =
           (if ''atproto'' \<in> set (enabled_protocols from_user) then
              (if followers = []
                  \<and> (on_limited_domain util env (Some (key_ident (u_key from_user)))
                      \<or> on_limited_domain util env (object_key_id obj))
               then direct
               else if (is_reply \<or> obj_type obj = Some ''share'') \<and> direct = [] then direct
               else dict_setdefault \<lparr>protocol = ''atproto'', uri = PDS_URL env\<rparr> None direct)
            else direct)
     in follower_targets env (if obj_type obj = Some ''share'' then orig_obj else None)
          users with_atproto)"

text \<open>The end of \<^verbatim>\<open>targets\<close>: de-duplicate the targets by URL and discard those on a
  domain of the activity's own id, url or owner.\<close>

definition dedupe_targets ::
    "webutil \<Rightarrow> 'z targets_env_scheme \<Rightarrow> as1 \<Rightarrow> target_map \<Rightarrow> error + target_map" where
  "dedupe_targets util env a all_targets =
    (let candidates = map (\<lambda>(t, orig). (uri t, (t, orig))) all_targets;
         source_domains =
           map (domain_from_link util)
             (filter (is_web util)
                (List.map_filter (\<lambda>x. x)
                   [str_field a ''id'', str_field a ''url'', get_owner env a]))
     in final_targets util source_domains candidates
          (sort (dedupe_urls env (dict_keys candidates))) [])"

text \<open>
  \<^verbatim>\<open>Protocol.targets\<close> on the class \<open>cls\<close>, for an Object that has AS1 data (as
  \<^verbatim>\<open>receive\<close> has checked), with the datastore's \<^verbatim>\<open>Follower\<close> entities \<open>tbl\<close>. The
  additions to \<^verbatim>\<open>obj.notify\<close> and to the feed of the followers (\<^verbatim>\<open>feed_obj\<close>) are
  writes beside the returned map and are left out.
\<close>

definition targets ::
    "webutil \<Rightarrow> 'z targets_env_scheme \<Rightarrow> follower list \<Rightarrow> protocol \<Rightarrow> activity \<Rightarrow> user_entity
       \<Rightarrow> error + target_map" where
  "targets util env tbl cls obj from_user =
    (case as1 obj of
       None \<Rightarrow> Inl AttributeError
     | Some a \<Rightarrow>
      (let target_uris = sorted_set (as1_targets env a);
           owner = get_owner env a;
           in_reply_tos = as1_get_ids env (as1_get_object env a) ''inReplyTo''
       in case in_reply_to_info env (source_protocol obj) in_reply_tos of
            Inl e \<Rightarrow> Inl e
          | Inr (in_reply_to_protocols, in_reply_to_owners) \<Rightarrow>
            (let is_reply = (obj_type obj = Some ''comment'' \<or> in_reply_tos \<noteq> [])
             in if is_reply \<and> in_reply_to_protocols = [] then Inr []
                else
                 (case fold (direct_target env cls owner in_reply_to_owners)
                         (sort target_uris) ([], False, None) of
                    (direct, is_self_reply, orig_obj) \<Rightarrow>
                     (case actor_key env cls obj of
                        None \<Rightarrow> Inr direct
                      | Some user_key \<Rightarrow>
                         (case
                            (if obj_type obj \<in> Some ` {''post'', ''update'', ''delete'', ''share''}
                                \<and> (\<not> is_reply
                                    \<or> (is_self_reply \<and> in_reply_to_protocols \<noteq> []))
                             then follower_fan_out util env tbl obj from_user user_key is_reply
                                    in_reply_to_protocols direct orig_obj
                             else Inr direct) of
                            Inl e \<Rightarrow> Inl e
                          | Inr all_targets \<Rightarrow> dedupe_targets util env a all_targets))))))"

subsection \<open>The writes to the Follower entities\<close>

text \<open>
  Modelled from the spec: \<^verbatim>\<open>User.get_or_create\<close> is in \<^verbatim>\<open>models.py\<close>, which is not
  among the sources. "Users are created on demand on first reference":
  \<^verbatim>\<open>cls.get_or_create(id=...)\<close> returns a user of the class \<open>cls\<close> it is called on;
  \<open>user_get_or_create\<close> gives the id of that user's key. The other calls of
  \<^verbatim>\<open>handle_follow\<close> beside those of \<^verbatim>\<open>targets\<close> are, from granary,
  \<^verbatim>\<open>as1.get_object(obj.as1, 'actor')\<close> and \<^verbatim>\<open>as1.get_objects(obj.as1)\<close>, and
  \<^verbatim>\<open>maybe_accept_follow\<close>, which writes and sends an \<^verbatim>\<open>accept\<close> and touches no
  \<^verbatim>\<open>Follower\<close>: only the error it may raise matters to the loop.
\<close>

record follow_env = targets_env +
  as1_get_actor :: "as1 \<Rightarrow> as1"
  as1_get_objects :: "as1 \<Rightarrow> as1 list"
  user_get_or_create :: "protocol \<Rightarrow> string \<Rightarrow> string"
  maybe_accept_follow :: "key \<Rightarrow> key \<Rightarrow> activity \<Rightarrow> error option"

text \<open>
  Modelled from the spec: \<^verbatim>\<open>Follower.get_or_create\<close> is in \<^verbatim>\<open>models.py\<close>, which is not
  among the sources. The follow handler "upserts an active Follower edge", and "for any
  ordered pair there is at most one active Follower edge": the edge of the pair is made
  active if there is one, and created otherwise.
\<close>

definition follower_get_or_create :: "key \<Rightarrow> key \<Rightarrow> follower list \<Rightarrow> follower list" where
  "follower_get_or_create to_key from_key tbl =
    (if \<exists>f\<in>set tbl. f_to f = to_key \<and> f_from f = from_key
     then map (\<lambda>f. if f_to f = to_key \<and> f_from f = from_key
                    then f\<lparr>f_status := ''active''\<rparr> else f) tbl
     else tbl @ [\<lparr>f_from = from_key, f_to = to_key, f_status = ''active''\<rparr>])"

text \<open>
  The loop \<^verbatim>\<open>for to_as1 in to_as1s\<close> of \<^verbatim>\<open>handle_follow\<close>, with the result of the
  handler and the \<^verbatim>\<open>Follower\<close> entities it leaves; a round that raises keeps the
  entities of the rounds before it. A followee on the follower's own protocol is
  skipped, except on \<^verbatim>\<open>fake\<close>. The ids are strings; \<^verbatim>\<open>error\<close> raises with status 400.
\<close>

fun store_followers ::
    "'z follow_env_scheme \<Rightarrow> protocol \<Rightarrow> key \<Rightarrow> activity \<Rightarrow> as1 list \<Rightarrow> follower list
       \<Rightarrow> (error + unit) \<times> follower list" where
  "store_followers env from_cls from_user obj [] tbl = (Inr (), tbl)"
| "store_followers env from_cls from_user obj (to_as1 # to_as1s) tbl =
    (case str_field to_as1 ''id'' of
       None \<Rightarrow> (Inl (HTTPException 400), tbl)
     | Some to_id \<Rightarrow>
        if to_id = [] then (Inl (HTTPException 400), tbl)
        else
         (case for_id env to_id of
            None \<Rightarrow> (Inl (HTTPException 400), tbl)
          | Some to_cls \<Rightarrow>
             if from_cls = to_cls \<and> LABEL from_cls \<noteq> ''fake''
             then store_followers env from_cls from_user obj to_as1s tbl
             else
              (case key_for env to_cls to_id of
                 None \<Rightarrow> store_followers env from_cls from_user obj to_as1s tbl
               | Some to_key \<Rightarrow>
                  (let to_user = \<lparr>key_class = to_cls,
                                  key_ident = user_get_or_create env to_cls (key_ident to_key)\<rparr>;
                       tbl' = follower_get_or_create to_user from_user tbl
                   in case maybe_accept_follow env from_user to_user obj of
                        Some e \<Rightarrow> (Inl e, tbl')
                      | None \<Rightarrow> store_followers env from_cls from_user obj to_as1s tbl'))))"

text \<open>
  \<^verbatim>\<open>handle_follow\<close> on the class \<open>from_cls\<close>, with the result of the handler and the
  \<^verbatim>\<open>Follower\<close> entities it leaves. The follower's user is a user of \<open>from_cls\<close>. The
  writes of the profile objects (\<^verbatim>\<open>from_obj.put()\<close>, \<^verbatim>\<open>to_obj.put()\<close>) and to
  \<^verbatim>\<open>obj.users\<close> and \<^verbatim>\<open>obj.notify\<close> touch no \<^verbatim>\<open>Follower\<close> and are left out.
\<close>

definition handle_follow ::
    "'z follow_env_scheme \<Rightarrow> protocol \<Rightarrow> activity \<Rightarrow> follower list
       \<Rightarrow> (error + unit) \<times> follower list" where
  "handle_follow env from_cls obj tbl =
    (case as1 obj of
       None \<Rightarrow> (Inl AttributeError, tbl)
     | Some a \<Rightarrow>
        (case str_field (as1_get_actor env a) ''id'' of
           None \<Rightarrow> (Inl (HTTPException 400), tbl)
         | Some from_id \<Rightarrow>
            if from_id = [] then (Inl (HTTPException 400), tbl)
            else
             (case load env from_cls from_id of
                None \<Rightarrow> (Inl (HTTPException 400), tbl)
              | Some from_obj \<Rightarrow>
                 (case key_for env from_cls from_id of
                    None \<Rightarrow> (Inl (HTTPException 400), tbl)
                  | Some from_key \<Rightarrow>
                     (let from_user =
                            \<lparr>key_class = from_cls,
                             key_ident = user_get_or_create env from_cls (key_ident from_key)\<rparr>;
                          to_as1s = as1_get_objects env a
                      in if to_as1s = [] then (Inl (HTTPException 400), tbl)
                         else store_followers env from_cls from_user obj to_as1s tbl)))))"

text \<open>
  The other two writes, both in \<^verbatim>\<open>receive\<close>. For \<^verbatim>\<open>stop-following\<close>, the first active
  \<^verbatim>\<open>Follower\<close> from \<open>from_key\<close> to \<open>to_key\<close> becomes inactive; for the \<^verbatim>\<open>delete\<close> of an
  actor, every \<^verbatim>\<open>Follower\<close> from or to the deleted user does.
\<close>

fun stop_following :: "key \<Rightarrow> key \<Rightarrow> follower list \<Rightarrow> follower list" where
  "stop_following from_key to_key [] = []"
| "stop_following from_key to_key (f # tbl) =
    (if f_to f = to_key \<and> f_from f = from_key \<and> f_status f = ''active''
     then f\<lparr>f_status := ''inactive''\<rparr> # tbl
     else f # stop_following from_key to_key tbl)"

definition deactivate_followers :: "key \<Rightarrow> follower list \<Rightarrow> follower list" where
  "deactivate_followers deleted_user tbl =
     map (\<lambda>f. if f_to f = deleted_user \<or> f_from f = deleted_user
               then f\<lparr>f_status := ''inactive''\<rparr> else f) tbl"

text \<open>
  \<^verbatim>\<open>protocol.py\<close> writes \<^verbatim>\<open>Follower\<close> entities at these three places and nowhere else.
  A history of such writes, each in the setting of its own time, and the \<^verbatim>\<open>Follower\<close>
  entities it leaves in a datastore that had none.
\<close>

datatype follower_write =
    Follow follow_env protocol activity
  | StopFollowing key key
  | DeleteActor key

fun write_followers :: "follower_write \<Rightarrow> follower list \<Rightarrow> follower list" where
  "write_followers (Follow env from_cls obj) tbl = snd (handle_follow env from_cls obj tbl)"
| "write_followers (StopFollowing from_key to_key) tbl = stop_following from_key to_key tbl"
| "write_followers (DeleteActor deleted_user) tbl = deactivate_followers deleted_user tbl"

definition followers_after :: "follower_write list \<Rightarrow> follower list" where
  "followers_after history = fold write_followers history []"

subsection \<open>An example setting\<close>

text \<open>
  Ids starting with \<^verbatim>\<open>fake:\<close> belong to Fake, those starting with \<^verbatim>\<open>did:\<close> to ATProto,
  those under \<^verbatim>\<open>https://inst/\<close> to ActivityPub, all others to Web. Every id loads, to
  an object that holds only its id, and is its own delivery endpoint; the shared
  endpoint of an ActivityPub profile is \<^verbatim>\<open>https://inst/inbox\<close>. No user is stored
  under another id or has a status, and every key has a user, whose profile is the
  object of its id. The owner of an activity is its \<^verbatim>\<open>actor\<close>, its direct target and
  the followee of a follow its \<^verbatim>\<open>object\<close> when that is an id. Every follow is accepted.
\<close>

definition ATProto :: protocol where
  "ATProto = \<lparr>LABEL = ''atproto'', ABBREV = ''bsky'', HAS_COPIES = True\<rparr>"

definition loaded :: "string \<Rightarrow> activity" where
  "loaded i = \<lparr>object_key_id = Some i, as1 = Some [(''id'', Str i)], new = None,
                changed = None, obj_type = None, source_protocol = None, copies = []\<rparr>"

definition example_targets_env :: follow_env where
  "example_targets_env =
     \<lparr>owns_id = (\<lambda>_ _. None), owns_handle = (\<lambda>_ _. None),
      get_by_id = (\<lambda>_ _. None), get_for_copy = (\<lambda>_ _. None),
      get_owner = (\<lambda>a. str_field a ''actor''),
      is_blocklisted = (\<lambda>_ _ _. False),
      as1_targets = (\<lambda>a. case str_field a ''object'' of Some x \<Rightarrow> [x] | None \<Rightarrow> []),
      as1_get_object = (\<lambda>a. []),
      as1_get_ids = (\<lambda>_ _. []),
      for_id = (\<lambda>i. if startswith i ''fake:'' then Some Fake
                     else if startswith i ''did:'' then Some ATProto
                     else if startswith i ''https://inst/'' then Some ActivityPub
                     else Some Web),
      load = (\<lambda>_ i. Some (loaded i)),
      PROTOCOLS = [''fake'' \<mapsto> Fake, ''web'' \<mapsto> Web, ''activitypub'' \<mapsto> ActivityPub,
                   ''atproto'' \<mapsto> ATProto],
      get_kind = LABEL,
      target_for = (\<lambda>p orig shared. if shared \<and> p = ActivityPub then Some ''https://inst/inbox''
                                       else object_key_id orig),
      get_by_id_opt_out = (\<lambda>_ _. None),
      for_bridgy_subdomain = (\<lambda>_. None),
      get_multi = (\<lambda>k. Some \<lparr>u_key = k, u_obj = Some (loaded (key_ident k)),
                               enabled_protocols = []\<rparr>),
      dedupe_urls = (\<lambda>urls. urls),
      LIMITED_DOMAINS = [],
      PDS_URL = ''https://atproto.brid.gy'',
      as1_get_actor = (\<lambda>a. case str_field a ''actor'' of
                              Some x \<Rightarrow> [(''id'', Str x)] | None \<Rightarrow> []),
      as1_get_objects = (\<lambda>a. case str_field a ''object'' of
                                Some x \<Rightarrow> [[(''id'', Str x)]] | None \<Rightarrow> []),
      user_get_or_create = (\<lambda>_ i. i),
      maybe_accept_follow = (\<lambda>_ _ _. None)\<rparr>"

definition planner_webutil :: webutil where
  "planner_webutil =
     \<lparr>is_web = (\<lambda>s. startswith s ''http://'' \<or> startswith s ''https://''),
      domain_from_link = (\<lambda>s. if startswith s ''https://user.com/'' then Some ''user.com''
                               else if startswith s ''https://inst/'' then Some ''inst''
                               else None),
      domain_or_parent_in = (\<lambda>d ds. d \<in> set ds),
      DEBUG = False\<rparr>"

text \<open>A like from the Fake user \<^verbatim>\<open>fake:alice\<close> of the Fake post \<^verbatim>\<open>fake:post\<close>.\<close>

definition fake_like :: activity where
  "fake_like =
     \<lparr>object_key_id = Some ''fake:like'',
      as1 = Some [(''id'', Str ''fake:like''), (''objectType'', Str ''activity''),
                  (''verb'', Str ''like''), (''actor'', Str ''fake:alice''),
                  (''object'', Str ''fake:post'')],
      new = Some True, changed = None, obj_type = Some ''like'',
      source_protocol = Some ''fake'', copies = []\<rparr>"

definition fake_alice :: user_entity where
  "fake_alice = \<lparr>u_key = \<lparr>key_class = Fake, key_ident = ''fake:alice''\<rparr>,
                 u_obj = None, enabled_protocols = []\<rparr>"

text \<open>A post from the ATProto user \<^verbatim>\<open>did:plc:alice\<close>, who has \<^verbatim>\<open>atproto\<close> among the
  enabled protocols.\<close>

definition bsky_post :: activity where
  "bsky_post =
     \<lparr>object_key_id = Some ''at://did:plc:alice/app.bsky.feed.post/1#create'',
      as1 = Some [(''id'', Str ''at://did:plc:alice/app.bsky.feed.post/1#create''),
                  (''objectType'', Str ''activity''), (''verb'', Str ''post''),
                  (''actor'', Str ''did:plc:alice''),
                  (''object'', PDict [(''id'', Str ''at://did:plc:alice/app.bsky.feed.post/1''),
                                      (''objectType'', Str ''note'')])],
      new = Some True, changed = None, obj_type = Some ''post'',
      source_protocol = Some ''atproto'', copies = []\<rparr>"

definition bsky_alice :: user_entity where
  "bsky_alice = \<lparr>u_key = \<lparr>key_class = ATProto, key_ident = ''did:plc:alice''\<rparr>,
                 u_obj = None, enabled_protocols = [''atproto'']\<rparr>"

text \<open>
  The ActivityPub user \<^verbatim>\<open>https://inst/bob\<close> follows the Web user \<^verbatim>\<open>https://user.com/\<close>,
  who then reposts the Web post \<^verbatim>\<open>https://other.com/post\<close>, and writes a post.
\<close>

definition bob_key :: key where
  "bob_key = \<lparr>key_class = ActivityPub, key_ident = ''https://inst/bob''\<rparr>"

definition user_com_key :: key where
  "user_com_key = \<lparr>key_class = Web, key_ident = ''https://user.com/''\<rparr>"

definition bob_follow :: activity where
  "bob_follow =
     \<lparr>object_key_id = Some ''https://inst/follow/1'',
      as1 = Some [(''id'', Str ''https://inst/follow/1''), (''objectType'', Str ''activity''),
                  (''verb'', Str ''follow''), (''actor'', Str ''https://inst/bob''),
                  (''object'', Str ''https://user.com/'')],
      new = Some True, changed = None, obj_type = Some ''follow'',
      source_protocol = Some ''activitypub'', copies = []\<rparr>"

definition web_share :: activity where
  "web_share =
     \<lparr>object_key_id = Some ''https://user.com/repost'',
      as1 = Some [(''id'', Str ''https://user.com/repost''), (''objectType'', Str ''activity''),
                  (''verb'', Str ''share''), (''actor'', Str ''https://user.com/''),
                  (''object'', Str ''https://other.com/post'')],
      new = Some True, changed = None, obj_type = Some ''share'',
      source_protocol = Some ''web'', copies = []\<rparr>"

definition web_post :: activity where
  "web_post =
     \<lparr>object_key_id = Some ''https://user.com/post#create'',
      as1 = Some [(''id'', Str ''https://user.com/post#create''),
                  (''objectType'', Str ''activity''), (''verb'', Str ''post''),
                  (''actor'', Str ''https://user.com/''),
                  (''object'', PDict [(''id'', Str ''https://user.com/post''),
                                      (''objectType'', Str ''note'')])],
      new = Some True, changed = None, obj_type = Some ''post'',
      source_protocol = Some ''web'', copies = []\<rparr>"

definition user_com :: user_entity where
  "user_com = \<lparr>u_key = user_com_key, u_obj = None, enabled_protocols = []\<rparr>"

section \<open>Properties of ids.py\<close>

text \<open>
  C6, as stated, fails: from ActivityPub to Web, two distinct protocols neither of which
  uses copies, the id \<^verbatim>\<open>https://inst/user\<close> is returned unchanged and not as the
  subdomain-wrap URL \<^verbatim>\<open>https://ap.brid.gy/web/https://inst/user\<close>.
\<close>

theorem translate_user_id_ap_web_counterexample:
  "owns_id empty_ids_env ActivityPub ''https://inst/user'' \<noteq> Some False
   \<and> ActivityPub \<noteq> Web
   \<and> \<not> HAS_COPIES ActivityPub \<and> \<not> HAS_COPIES Web
   \<and> translate_user_id empty_ids_env ''https://inst/user'' ActivityPub Web
       = Inr (Some ''https://inst/user'')
   \<and> translate_user_id empty_ids_env ''https://inst/user'' ActivityPub Web
       \<noteq> Inr (Some (spec_subdomain_wrap_id ActivityPub Web ''https://inst/user''))"
  by (simp add: translate_user_id_def empty_ids_env_def ActivityPub_def Web_def
        spec_subdomain_wrap_id_def SUPERDOMAIN_def)

text \<open>
  C6, amended: for a non-empty user id that the origin protocol does not disown and two
  distinct protocols neither of which is labelled \<^verbatim>\<open>atproto\<close> (the only label that is
  routed through stored copies), \<^verbatim>\<open>translate_user_id\<close> returns the subdomain wrap
  \<^verbatim>\<open>https://<origin-abbrev>.brid.gy/ap/<id>\<close> when the destination is \<^verbatim>\<open>activitypub\<close>;
  otherwise the id unchanged from \<^verbatim>\<open>activitypub\<close> to \<^verbatim>\<open>web\<close>, \<^verbatim>\<open>fake:<id>\<close> to
  \<^verbatim>\<open>fake\<close>, the id unchanged from \<^verbatim>\<open>fake\<close>, and an assertion failure on every other
  pair.
\<close>

theorem translate_user_id_no_copies:
  assumes "uid \<noteq> []"
    and "owns_id env from_proto uid \<noteq> Some False"
    and "from_proto \<noteq> to_proto"
    and "LABEL from_proto \<noteq> ''atproto''"
    and "LABEL to_proto \<noteq> ''atproto''"
  shows "translate_user_id env uid from_proto to_proto =
    (if LABEL to_proto = ''activitypub'' then
       Inr (Some (''https://'' @ ABBREV from_proto @ SUPERDOMAIN @ ''/ap/'' @ uid))
     else if LABEL from_proto = ''activitypub'' \<and> LABEL to_proto = ''web'' then
       Inr (Some uid)
     else if LABEL to_proto = ''fake'' then Inr (Some (''fake:'' @ uid))
     else if LABEL from_proto = ''fake'' then Inr (Some uid)
     else Inl AssertionError)"
  using assms by (simp add: translate_user_id_def subdomain_wrap_def)

theorem translate_user_id_no_copies_witness:
  "''user.com'' \<noteq> []
   \<and> owns_id empty_ids_env Web ''user.com'' \<noteq> Some False
   \<and> Web \<noteq> ActivityPub
   \<and> LABEL Web \<noteq> ''atproto'' \<and> LABEL ActivityPub \<noteq> ''atproto''
   \<and> translate_user_id empty_ids_env ''user.com'' Web ActivityPub
       = Inr (Some ''https://web.brid.gy/ap/user.com'')"
  using translate_user_id_no_copies
          [of "''user.com''" empty_ids_env Web ActivityPub]
  by (simp add: empty_ids_env_def Web_def ActivityPub_def SUPERDOMAIN_def)

text \<open>
  C7: an ActivityPub handle \<^verbatim>\<open>@<user>@<instance>\<close> translated to Web should give
  \<^verbatim>\<open>https://<instance>/@<user>\<close>. The code returns the fixed text \<^verbatim>\<open>instance/@user\<close>
  for every such handle; here for \<^verbatim>\<open>@alice@example.com\<close>.
\<close>

theorem translate_handle_ap_web_literal:
  "translate_handle empty_ids_env ''@alice@example.com'' ActivityPub Web
     = Inr ''instance/@user''
   \<and> ''instance/@user'' \<noteq> ''https://example.com/@alice''"
  by (simp add: translate_handle_def empty_ids_env_def ActivityPub_def Web_def
        lstrip_def)

section \<open>Properties of the send task\<close>

lemma remove1_absent_if_distinct: "distinct xs \<Longrightarrow> x \<notin> set (remove1 x xs)"
  by simp

lemma set_add: "set (add xs x) = insert x (set xs)"
  by (auto simp: add_def)

lemma distinct_add: "distinct xs \<Longrightarrow> distinct (add xs x)"
  by (simp add: add_def)

lemma update_object_undelivered:
  "undelivered (update_object tgt sent obj) =
     (if tgt \<in> set (undelivered obj) then remove1 tgt (undelivered obj)
      else undelivered obj)"
  by (simp add: update_object_def obj_remove_def Let_def split: option.splits)

lemma update_object_failed:
  "failed (update_object tgt sent obj) =
     (case sent of
        None \<Rightarrow> add (failed obj) tgt
      | Some s \<Rightarrow> if tgt \<in> set (failed obj) then remove1 tgt (failed obj)
                  else failed obj)"
  by (simp add: update_object_def obj_remove_def obj_add_def Let_def split: option.splits)

lemma update_object_delivered:
  "delivered (update_object tgt sent obj) =
     (if sent = Some True then add (delivered obj) tgt else delivered obj)"
  by (simp add: update_object_def obj_add_def Let_def split: option.splits)

lemma update_object_status:
  "status (update_object tgt sent obj) =
     (if undelivered (update_object tgt sent obj) = [] then
        Some (if delivered (update_object tgt sent obj) \<noteq> [] then ''complete''
              else if failed (update_object tgt sent obj) \<noteq> [] then ''failed''
              else ''ignored'')
      else status obj)"
  by (simp add: update_object_def obj_add_def obj_remove_def Let_def split: option.splits)

lemma update_object_undelivered_subset:
  "set (undelivered (update_object tgt sent obj)) \<subseteq> set (undelivered obj)"
  using set_remove1_subset [of tgt "undelivered obj"]
  by (auto simp: update_object_undelivered)

lemma update_object_target_gone:
  "distinct (undelivered obj) \<Longrightarrow> tgt \<notin> set (undelivered (update_object tgt sent obj))"
  by (simp add: update_object_undelivered)

lemma update_object_delivered_subset:
  "set (delivered (update_object tgt sent obj)) \<subseteq> insert tgt (set (delivered obj))"
  by (auto simp: update_object_delivered set_add)

lemma update_object_failed_subset:
  "set (failed (update_object tgt sent obj)) \<subseteq> insert tgt (set (failed obj))"
  using set_remove1_subset [of tgt "failed obj"]
  by (auto simp: update_object_failed set_add split: option.splits)

lemma update_object_distinct:
  "distinct (undelivered obj) \<Longrightarrow> distinct (undelivered (update_object tgt sent obj))"
  "distinct (failed obj) \<Longrightarrow> distinct (failed (update_object tgt sent obj))"
  by (simp_all add: update_object_undelivered update_object_failed distinct_add
        split: option.splits)

lemma update_object_undelivered_remove1:
  "undelivered (update_object tgt sent obj) = remove1 tgt (undelivered obj)"
  by (simp add: update_object_undelivered remove1_idem)

lemma update_object_failed_cases:
  "failed (update_object tgt sent obj) =
     (if sent = None
      then (if tgt \<in> set (failed obj) then failed obj else failed obj @ [tgt])
      else remove1 tgt (failed obj))"
  by (simp add: update_object_failed add_def remove1_idem split: option.splits)

lemma update_object_delivered_cases:
  "delivered (update_object tgt sent obj) =
     (if sent = Some True
      then (if tgt \<in> set (delivered obj) then delivered obj else delivered obj @ [tgt])
      else delivered obj)"
  by (simp add: update_object_delivered add_def)

lemma update_object_invariant:
  assumes "distinct (undelivered obj)"
    and "set (undelivered obj) \<inter> set (delivered obj) = {}"
    and "set (undelivered obj) \<inter> set (failed obj) = {}"
  shows "set (undelivered (update_object tgt sent obj))
           \<inter> set (delivered (update_object tgt sent obj)) = {}"
    and "set (undelivered (update_object tgt sent obj))
           \<inter> set (failed (update_object tgt sent obj)) = {}"
proof -
  have gone: "tgt \<notin> set (undelivered (update_object tgt sent obj))"
    using assms(1) by (rule update_object_target_gone)
  have sub_u: "set (undelivered (update_object tgt sent obj)) \<subseteq> set (undelivered obj)"
    by (rule update_object_undelivered_subset)
  have sub_d: "set (delivered (update_object tgt sent obj))
                 \<subseteq> insert tgt (set (delivered obj))"
    by (rule update_object_delivered_subset)
  have sub_f: "set (failed (update_object tgt sent obj)) \<subseteq> insert tgt (set (failed obj))"
    by (rule update_object_failed_subset)
  show "set (undelivered (update_object tgt sent obj))
           \<inter> set (delivered (update_object tgt sent obj)) = {}"
    using gone sub_u sub_d assms(2) by blast
  show "set (undelivered (update_object tgt sent obj))
           \<inter> set (failed (update_object tgt sent obj)) = {}"
    using gone sub_u sub_f assms(3) by blast
qed

text \<open>What \<open>sent\<close> stands for: it is \<open>None\<close> exactly when the registry has no plugin
  for the label or the plugin's send raised, and \<open>Some b\<close> exactly when the plugin's
  send returned \<open>b\<close>.\<close>

lemma sent_by_plugin_None_iff:
  "sent_by_plugin env req store proto url obj = None \<longleftrightarrow>
     PROTOCOLS_send env proto = None
     \<or> (\<exists>send e. PROTOCOLS_send env proto = Some send
           \<and> send obj url
                (case form req ''user'' of
                   None \<Rightarrow> None
                 | Some user_key \<Rightarrow> if user_key = [] then None else get_user env user_key)
                (case form req ''orig_obj'' of
                   None \<Rightarrow> None
                 | Some k \<Rightarrow> if k = [] then None else store k) = Inl e)"
  by (auto simp: sent_by_plugin_def Let_def split: option.splits sum.splits)

lemma sent_by_plugin_Some_iff:
  "sent_by_plugin env req store proto url obj = Some b \<longleftrightarrow>
     (\<exists>send. PROTOCOLS_send env proto = Some send
           \<and> send obj url
                (case form req ''user'' of
                   None \<Rightarrow> None
                 | Some user_key \<Rightarrow> if user_key = [] then None else get_user env user_key)
                (case form req ''orig_obj'' of
                   None \<Rightarrow> None
                 | Some k \<Rightarrow> if k = [] then None else store k) = Inr b)"
  by (auto simp: sent_by_plugin_def Let_def split: option.splits sum.splits)

text \<open>When the handler gets as far as the plugin, it answers by the plugin's outcome and
  the entity stored afterwards is the transaction's \<open>update_object\<close> of the stored
  one; every other entity is as before.\<close>

lemma send_task_reaches_update:
  assumes "form req ''url'' = Some url" "url \<noteq> []"
    and "form req ''protocol'' = Some proto" "proto \<noteq> []"
    and "form req ''obj'' = Some obj_key" "store obj_key = Some obj"
    and "\<lparr>protocol = proto, uri = url\<rparr> \<in> set (undelivered obj) \<union> set (failed obj)
         \<or> in_request_values ''force'' req"
  shows "send_task env req store =
     Inr \<lparr>code = (if sent_by_plugin env req store proto url obj = Some True then 200
                  else if sent_by_plugin env req store proto url obj = Some False then 204
                  else 304),
          store_after = store(obj_key \<mapsto>
            update_object \<lparr>protocol = proto, uri = url\<rparr>
              (sent_by_plugin env req store proto url obj) obj),
          sends = (if PROTOCOLS_send env proto = None then [] else [(proto, url)])\<rparr>"
proof (cases "PROTOCOLS_send env proto")
  case None
  with assms show ?thesis
    by (auto simp: send_task_def sent_by_plugin_def update_object_txn_def)
next
  case (Some send)
  let ?user = "case form req ''user'' of None \<Rightarrow> None
                | Some user_key \<Rightarrow> if user_key = [] then None else get_user env user_key"
  let ?orig = "case form req ''orig_obj'' of None \<Rightarrow> None
                | Some k \<Rightarrow> if k = [] then None else store k"
  show ?thesis
  proof (cases "send obj url ?user ?orig")
    case (Inl e)
    with Some assms show ?thesis
      by (auto simp: send_task_def sent_by_plugin_def update_object_txn_def)
  next
    case (Inr b)
    with Some assms show ?thesis
      by (auto simp: send_task_def sent_by_plugin_def update_object_txn_def)
  qed
qed

text \<open>
  C1, as stated, fails for an arbitrary Object. With a target twice in \<open>undelivered\<close>
  the update removes one occurrence and the target is still there; likewise a target
  twice in \<open>failed\<close> stays in \<open>failed\<close> after a successful send; and an Object whose
  \<open>undelivered\<close> and \<open>delivered\<close> already share a target still shares it afterwards.
\<close>

theorem update_object_any_object_counterexample:
  "T1 \<in> set (undelivered (update_object T1 (Some True) O_twice_undelivered))
   \<and> T1 \<in> set (failed (update_object T1 (Some True) O_twice_failed))
   \<and> T2 \<in> set (undelivered (update_object T1 (Some True) O_overlapping))
   \<and> T2 \<in> set (delivered (update_object T1 (Some True) O_overlapping))"
  by (simp add: update_object_def obj_add_def obj_remove_def add_def T1_def T2_def
        O_twice_undelivered_def O_twice_failed_def O_overlapping_def)

text \<open>
  C1, amended: when the send task for the target \<open>T\<close> on the stored Object \<open>o\<close> gets as
  far as the plugin, it stores the updated Object \<open>o'\<close> in place of \<open>o\<close>, where, with
  \<open>sent\<close> the outcome of the plugin's send: one occurrence of \<open>T\<close> is removed from
  \<open>undelivered\<close> and its other entries stay as they are, so \<open>T\<close> is gone when
  \<open>undelivered\<close> held no duplicates; if the send raised, \<open>T\<close> is appended to \<open>failed\<close>
  unless already there, and \<open>delivered\<close> is unchanged; if it returned sent, \<open>T\<close> is
  appended to \<open>delivered\<close> unless already there and one occurrence of it is removed from
  \<open>failed\<close>, so it is gone from \<open>failed\<close> when that held no duplicates; if it was
  refused, \<open>delivered\<close> is unchanged and \<open>T\<close> is removed from \<open>failed\<close> in the same
  way. When \<open>undelivered\<close> is empty afterwards, the status is \<open>complete\<close> if
  \<open>delivered\<close> is non-empty, else \<open>failed\<close> if \<open>failed\<close> is non-empty, else
  \<open>ignored\<close>; otherwise the status is unchanged. If \<open>undelivered\<close> held no duplicates
  and was disjoint from \<open>delivered\<close> and from \<open>failed\<close> before, it is disjoint from
  both afterwards.
\<close>

theorem send_task_delivery_state:
  assumes url: "form req ''url'' = Some url" "url \<noteq> []"
    and proto: "form req ''protocol'' = Some proto" "proto \<noteq> []"
    and key: "form req ''obj'' = Some obj_key" "store obj_key = Some obj"
    and tgt: "tgt = \<lparr>protocol = proto, uri = url\<rparr>"
    and go: "tgt \<in> set (undelivered obj) \<union> set (failed obj)
             \<or> in_request_values ''force'' req"
    and sent: "sent = sent_by_plugin env req store proto url obj"
    and obj': "obj' = update_object tgt sent obj"
  shows "send_task env req store =
           Inr \<lparr>code = (if sent = Some True then 200
                        else if sent = Some False then 204 else 304),
                store_after = store(obj_key \<mapsto> obj'),
                sends = (if PROTOCOLS_send env proto = None then [] else [(proto, url)])\<rparr>
    \<and> undelivered obj' = remove1 tgt (undelivered obj)
    \<and> (sent = None \<longrightarrow>
          failed obj' = (if tgt \<in> set (failed obj) then failed obj else failed obj @ [tgt])
          \<and> delivered obj' = delivered obj)
    \<and> (sent = Some True \<longrightarrow>
          delivered obj' = (if tgt \<in> set (delivered obj) then delivered obj
                            else delivered obj @ [tgt])
          \<and> failed obj' = remove1 tgt (failed obj))
    \<and> (sent = Some False \<longrightarrow>
          delivered obj' = delivered obj \<and> failed obj' = remove1 tgt (failed obj))
    \<and> (undelivered obj' = [] \<longrightarrow>
          status obj' = Some (if delivered obj' \<noteq> [] then ''complete''
                              else if failed obj' \<noteq> [] then ''failed''
                              else ''ignored''))
    \<and> (undelivered obj' \<noteq> [] \<longrightarrow> status obj' = status obj)
    \<and> (distinct (undelivered obj) \<longrightarrow> tgt \<notin> set (undelivered obj'))
    \<and> (distinct (failed obj) \<and> sent \<noteq> None \<longrightarrow> tgt \<notin> set (failed obj'))
    \<and> (distinct (undelivered obj)
         \<and> set (undelivered obj) \<inter> set (delivered obj) = {}
         \<and> set (undelivered obj) \<inter> set (failed obj) = {}
         \<longrightarrow> set (undelivered obj') \<inter> set (delivered obj') = {}
             \<and> set (undelivered obj') \<inter> set (failed obj') = {})"
proof -
  have task: "send_task env req store =
           Inr \<lparr>code = (if sent = Some True then 200
                        else if sent = Some False then 204 else 304),
                store_after = store(obj_key \<mapsto> obj'),
                sends = (if PROTOCOLS_send env proto = None then [] else [(proto, url)])\<rparr>"
    unfolding obj' sent tgt
    using url proto key go [unfolded tgt] by (rule send_task_reaches_update)
  have u: "undelivered obj' = remove1 tgt (undelivered obj)"
    unfolding obj' by (rule update_object_undelivered_remove1)
  have f: "failed obj' = (if sent = None
      then (if tgt \<in> set (failed obj) then failed obj else failed obj @ [tgt])
      else remove1 tgt (failed obj))"
    unfolding obj' by (rule update_object_failed_cases)
  have d: "delivered obj' = (if sent = Some True
      then (if tgt \<in> set (delivered obj) then delivered obj else delivered obj @ [tgt])
      else delivered obj)"
    unfolding obj' by (rule update_object_delivered_cases)
  have st: "status obj' = (if undelivered obj' = [] then
        Some (if delivered obj' \<noteq> [] then ''complete''
              else if failed obj' \<noteq> [] then ''failed''
              else ''ignored'')
      else status obj)"
    unfolding obj' by (rule update_object_status)
  have gone_u: "distinct (undelivered obj) \<longrightarrow> tgt \<notin> set (undelivered obj')"
    using u by simp
  have gone_f: "distinct (failed obj) \<and> sent \<noteq> None \<longrightarrow> tgt \<notin> set (failed obj')"
    using f by simp
  have inv: "distinct (undelivered obj)
         \<and> set (undelivered obj) \<inter> set (delivered obj) = {}
         \<and> set (undelivered obj) \<inter> set (failed obj) = {}
         \<longrightarrow> set (undelivered obj') \<inter> set (delivered obj') = {}
             \<and> set (undelivered obj') \<inter> set (failed obj') = {}"
    unfolding obj' using update_object_invariant [of obj tgt sent] by blast
  have c_none: "sent = None \<longrightarrow>
          failed obj' = (if tgt \<in> set (failed obj) then failed obj else failed obj @ [tgt])
          \<and> delivered obj' = delivered obj"
    using f d by simp
  have c_true: "sent = Some True \<longrightarrow>
          delivered obj' = (if tgt \<in> set (delivered obj) then delivered obj
                            else delivered obj @ [tgt])
          \<and> failed obj' = remove1 tgt (failed obj)"
    using f d by simp
  have c_false: "sent = Some False \<longrightarrow>
          delivered obj' = delivered obj \<and> failed obj' = remove1 tgt (failed obj)"
    using f d by simp
  have s1: "undelivered obj' = [] \<longrightarrow>
          status obj' = Some (if delivered obj' \<noteq> [] then ''complete''
                              else if failed obj' \<noteq> [] then ''failed''
                              else ''ignored'')"
    using st by simp
  have s2: "undelivered obj' \<noteq> [] \<longrightarrow> status obj' = status obj"
    using st by simp
  from task u c_none c_true c_false s1 s2 gone_u gone_f inv show ?thesis by blast
qed

theorem send_task_delivery_state_witness:
  "form S5_request ''url'' = Some ''fake:inbox''
   \<and> form S5_request ''protocol'' = Some ''fake''
   \<and> form S5_request ''obj'' = Some ''obj-key''
   \<and> T1 = \<lparr>protocol = ''fake'', uri = ''fake:inbox''\<rparr>
   \<and> T1 \<in> set (undelivered O_two) \<union> set (failed O_two)
   \<and> sent_by_plugin S5_env S5_request [''obj-key'' \<mapsto> O_two] ''fake''
         ''fake:inbox'' O_two = Some True
   \<and> send_task S5_env S5_request [''obj-key'' \<mapsto> O_two]
       = Inr \<lparr>code = 200,
              store_after = [''obj-key'' \<mapsto> update_object T1 (Some True) O_two],
              sends = [(''fake'', ''fake:inbox'')]\<rparr>
   \<and> undelivered (update_object T1 (Some True) O_two) = [T2]
   \<and> delivered (update_object T1 (Some True) O_two) = [T1]
   \<and> failed (update_object T1 (Some True) O_two) = []
   \<and> status (update_object T1 (Some True) O_two) = Some ''in progress''"
proof -
  let ?store = "[''obj-key'' \<mapsto> O_two]"
  have url: "form S5_request ''url'' = Some ''fake:inbox''" "''fake:inbox'' \<noteq> []"
    by (simp_all add: S5_request_def)
  have proto: "form S5_request ''protocol'' = Some ''fake''" "''fake'' \<noteq> []"
    by (simp_all add: S5_request_def)
  have key: "form S5_request ''obj'' = Some ''obj-key''" "?store ''obj-key'' = Some O_two"
    by (simp_all add: S5_request_def)
  have tgt: "T1 = \<lparr>protocol = ''fake'', uri = ''fake:inbox''\<rparr>" by (simp add: T1_def)
  have mem: "T1 \<in> set (undelivered O_two) \<union> set (failed O_two)"
    by (simp add: O_two_def)
  then have go: "T1 \<in> set (undelivered O_two) \<union> set (failed O_two)
             \<or> in_request_values ''force'' S5_request" by simp
  have sent: "Some True = sent_by_plugin S5_env S5_request ?store ''fake'' ''fake:inbox''
                O_two"
    by (simp add: sent_by_plugin_def S5_env_def S5_request_def)
  have ps: "PROTOCOLS_send S5_env ''fake'' \<noteq> None" by (simp add: S5_env_def)
  have neq: "T1 \<noteq> T2" by (simp add: T1_def T2_def)
  from send_task_delivery_state [OF url proto key tgt go sent refl]
  have "send_task S5_env S5_request ?store
       = Inr \<lparr>code = 200,
              store_after = ?store(''obj-key'' \<mapsto> update_object T1 (Some True) O_two),
              sends = [(''fake'', ''fake:inbox'')]\<rparr>"
    and "undelivered (update_object T1 (Some True) O_two)
           = remove1 T1 (undelivered O_two)"
    and "delivered (update_object T1 (Some True) O_two)
           = (if T1 \<in> set (delivered O_two) then delivered O_two
              else delivered O_two @ [T1])"
    and "failed (update_object T1 (Some True) O_two)
           = remove1 T1 (failed O_two)"
    and "undelivered (update_object T1 (Some True) O_two) \<noteq> [] \<longrightarrow>
           status (update_object T1 (Some True) O_two) = status O_two"
    using ps by simp_all
  with url proto key tgt mem sent neq show ?thesis
    by (simp add: O_two_def)
qed

text \<open>
  C2: a send task whose target (protocol, url) is in neither \<open>undelivered\<close> nor
  \<open>failed\<close> of the stored Object, on a request without the force flag, answers 204,
  invokes no plugin send and leaves the datastore, hence the Object's delivery state, as
  it was.
\<close>

theorem send_task_noop_when_finalized:
  assumes "form req ''url'' = Some url" and "form req ''protocol'' = Some proto"
    and "form req ''obj'' = Some obj_key" and "store obj_key = Some obj"
    and "\<lparr>protocol = proto, uri = url\<rparr> \<notin> set (undelivered obj)"
    and "\<lparr>protocol = proto, uri = url\<rparr> \<notin> set (failed obj)"
    and "\<not> in_request_values ''force'' req"
  shows "send_task env req store = Inr \<lparr>code = 204, store_after = store, sends = []\<rparr>"
  using assms by (simp add: send_task_def)

theorem send_task_noop_when_finalized_witness:
  "form S5_request ''url'' = Some ''fake:inbox''
   \<and> form S5_request ''protocol'' = Some ''fake''
   \<and> form S5_request ''obj'' = Some ''obj-key''
   \<and> [''obj-key'' \<mapsto> O_done] ''obj-key'' = Some O_done
   \<and> \<lparr>protocol = ''fake'', uri = ''fake:inbox''\<rparr> \<notin> set (undelivered O_done)
   \<and> \<lparr>protocol = ''fake'', uri = ''fake:inbox''\<rparr> \<notin> set (failed O_done)
   \<and> \<not> in_request_values ''force'' S5_request
   \<and> send_task S5_env S5_request [''obj-key'' \<mapsto> O_done]
       = Inr \<lparr>code = 204, store_after = [''obj-key'' \<mapsto> O_done], sends = []\<rparr>"
proof -
  have pre: "form S5_request ''url'' = Some ''fake:inbox''"
    "form S5_request ''protocol'' = Some ''fake''"
    "form S5_request ''obj'' = Some ''obj-key''"
    "[''obj-key'' \<mapsto> O_done] ''obj-key'' = Some O_done"
    "\<lparr>protocol = ''fake'', uri = ''fake:inbox''\<rparr> \<notin> set (undelivered O_done)"
    "\<lparr>protocol = ''fake'', uri = ''fake:inbox''\<rparr> \<notin> set (failed O_done)"
    "\<not> in_request_values ''force'' S5_request"
    by (simp_all add: S5_request_def O_done_def in_request_values_def)
  from send_task_noop_when_finalized
         [of S5_request "''fake:inbox''" "''fake''" "''obj-key''"
             "[''obj-key'' \<mapsto> O_done]" O_done S5_env, OF pre] pre
  show ?thesis by simp
qed

text \<open>Scenario S5, first half: the send task for \<open>T1\<close> on the fresh Object invokes the
  plugin once, answers 200 and stores the completed Object.\<close>

lemma send_task_S5_first:
  "send_task S5_env S5_request [''obj-key'' \<mapsto> O_new]
     = Inr \<lparr>code = 200, store_after = [''obj-key'' \<mapsto> O_done],
            sends = [(''fake'', ''fake:inbox'')]\<rparr>"
  by (simp add: send_task_def S5_env_def S5_request_def O_new_def O_done_def T1_def
        update_object_txn_def update_object_def obj_add_def obj_remove_def add_def
        in_request_values_def)

section \<open>Properties of redirect wrapping\<close>

lemma prefix_sep_unique:
  "prefix (d @ [c]) (h @ c # rest) \<Longrightarrow> c \<notin> set d \<Longrightarrow> c \<notin> set h \<Longrightarrow> d = h"
proof (induction d arbitrary: h)
  case Nil
  then show ?case by (cases h) auto
next
  case (Cons x d)
  then show ?case by (cases h) auto
qed

lemma no_slash_DOMAINS: "d \<in> set DOMAINS \<Longrightarrow> CHR ''/'' \<notin> set d"
  by (auto simp: DOMAINS_def PRIMARY_DOMAIN_def OTHER_DOMAINS_def LOCAL_DOMAINS_def)

lemma startswith_append: "startswith (p @ r) p"
  by (simp add: startswith_def)

lemma removeprefix_append: "removeprefix (p @ r) p = r"
  by (simp add: removeprefix_def)

lemma unwrap_scheme_hit:
  assumes "is_web util u"
  shows "unwrap_scheme util (sch @ ''://'' @ h @ ''/r/'' @ u) h sch = Some u"
proof -
  have val: "sch @ ''://'' @ h @ ''/r/'' @ u = ((sch @ ''://'' @ h @ ''/'') @ ''r/'') @ u"
    by simp
  show ?thesis
    unfolding unwrap_scheme_def Let_def val
    using assms by (simp only: startswith_append removeprefix_append if_True)
qed

lemma unwrap_scheme_other_scheme:
  "unwrap_scheme util (''https://'' @ rest) d ''http'' = None"
  "unwrap_scheme util (''http://'' @ rest) d ''https'' = None"
  by (simp_all add: unwrap_scheme_def startswith_def Let_def)

lemma unwrap_scheme_other_domain:
  assumes "CHR ''/'' \<notin> set d" "CHR ''/'' \<notin> set h" "d \<noteq> h"
  shows "unwrap_scheme util (sch @ ''://'' @ h @ ''/r/'' @ u) d sch = None"
proof -
  have "\<not> prefix (d @ ''/'') (h @ ''/r/'' @ u)"
    using prefix_sep_unique [of d "CHR ''/''" h "''r/'' @ u"] assms by auto
  then have np: "\<not> prefix (sch @ ''://'' @ d @ ''/'') (sch @ ''://'' @ h @ ''/r/'' @ u)"
    by simp
  have np2: "\<not> prefix (sch @ ''://'' @ d @ ''/r/'') (sch @ ''://'' @ h @ ''/r/'' @ u)"
    using np prefix_order.trans [of "sch @ ''://'' @ d @ ''/''" "sch @ ''://'' @ d @ ''/r/''"]
    by (metis append.assoc prefixI append_Cons append_Nil)
  show ?thesis using np np2
    by (simp add: unwrap_scheme_def startswith_def Let_def)
qed

lemma unwrap_domains_hit:
  assumes web: "is_web util u" and sch: "sch = ''http'' \<or> sch = ''https''"
    and h: "CHR ''/'' \<notin> set h"
  shows "h \<in> set ds \<Longrightarrow> \<forall>d\<in>set ds. CHR ''/'' \<notin> set d \<Longrightarrow>
         unwrap_domains util (sch @ ''://'' @ h @ ''/r/'' @ u) ds = Some u"
proof (induction ds)
  case Nil
  then show ?case by simp
next
  case (Cons d ds)
  show ?case
  proof (cases "d = h")
    case True
    from sch show ?thesis
    proof
      assume "sch = ''http''"
      with True web unwrap_scheme_hit [of util u "''http''" h] show ?thesis by simp
    next
      assume s: "sch = ''https''"
      have "unwrap_scheme util (''https://'' @ h @ ''/r/'' @ u) h ''http'' = None"
        by (rule unwrap_scheme_other_scheme)
      with s True web unwrap_scheme_hit [of util u "''https''" h] show ?thesis by simp
    qed
  next
    case False
    with Cons.prems h have other:
      "unwrap_scheme util (sch' @ ''://'' @ h @ ''/r/'' @ u) d sch' = None" for sch'
      by (intro unwrap_scheme_other_domain) auto
    have http: "unwrap_scheme util (sch @ ''://'' @ h @ ''/r/'' @ u) d ''http'' = None"
      using sch other [of "''http''"] unwrap_scheme_other_scheme(1) [of util "h @ ''/r/'' @ u" d]
      by auto
    have https: "unwrap_scheme util (sch @ ''://'' @ h @ ''/r/'' @ u) d ''https'' = None"
      using sch other [of "''https''"] unwrap_scheme_other_scheme(2) [of util "h @ ''/r/'' @ u" d]
      by auto
    from False Cons have "unwrap_domains util (sch @ ''://'' @ h @ ''/r/'' @ u) ds = Some u"
      by auto
    with http https show ?thesis by simp
  qed
qed

lemma host_url_r_form:
  assumes "served_on_bridge util request"
  shows "\<exists>sch h. (sch = ''http'' \<or> sch = ''https'') \<and> h \<in> set DOMAINS
           \<and> host_url util request ''/r/'' = sch @ ''://'' @ h @ ''/r/''"
proof (cases "domain_or_parent_in util (host request) OTHER_DOMAINS
              \<or> (\<not> DEBUG util \<and> host request \<in> set LOCAL_DOMAINS)")
  case True
  then have "host_url util request ''/r/'' = ''https'' @ ''://'' @ PRIMARY_DOMAIN @ ''/r/''"
    by (auto simp: host_url_def)
  moreover have "PRIMARY_DOMAIN \<in> set DOMAINS" by (simp add: DOMAINS_def)
  ultimately show ?thesis by blast
next
  case False
  then have "host_url util request ''/r/'' = scheme request @ ''://'' @ host request @ ''/r/''"
    by (auto simp: host_url_def)
  moreover from False assms have "host request \<in> set DOMAINS"
    "scheme request = ''http'' \<or> scheme request = ''https''"
    by (auto simp: served_on_bridge_def)
  ultimately show ?thesis by blast
qed

lemma unwrap_wrapped:
  assumes "is_web util u" "served_on_bridge util request"
  shows "redirect_unwrap util (Str (host_url util request ''/r/'' @ u)) = Str u"
proof -
  from host_url_r_form [OF assms(2)] obtain sch h where
    sch: "sch = ''http'' \<or> sch = ''https''" and h: "h \<in> set DOMAINS"
    and eq: "host_url util request ''/r/'' = sch @ ''://'' @ h @ ''/r/''" by blast
  have "unwrap_domains util (sch @ ''://'' @ h @ ''/r/'' @ u) DOMAINS = Some u"
    using assms(1) sch h no_slash_DOMAINS
    by (intro unwrap_domains_hit) auto
  then show ?thesis by (simp add: eq)
qed

lemma unwrap_domains_empty: "unwrap_domains util [] ds = None"
  by (induction ds) (simp_all add: unwrap_scheme_def startswith_def)

text \<open>
  C9: for a web URL \<open>u\<close> whose domain is not in \<^verbatim>\<open>DOMAINS\<close>, on a request served on
  one of the bridge's own domains, \<^verbatim>\<open>redirect_unwrap(redirect_wrap(u)) = u\<close>; and for a
  URL whose domain is in \<^verbatim>\<open>DOMAINS\<close>, or an empty value (\<^verbatim>\<open>None\<close> or the empty string),
  \<^verbatim>\<open>redirect_wrap\<close> returns its input unchanged.
\<close>

theorem redirect_wrap_unwrap:
  "(is_web util u \<and> domain_from_link util u \<notin> Some ` set DOMAINS
      \<and> served_on_bridge util request \<longrightarrow>
      (case redirect_wrap util request (Some u) of
         Some w \<Rightarrow> redirect_unwrap util (Str w) = Str u
       | None \<Rightarrow> False))
   \<and> (domain_from_link util u \<in> Some ` set DOMAINS \<longrightarrow>
        redirect_wrap util request (Some u) = Some u)
   \<and> redirect_wrap util request (Some []) = Some []
   \<and> redirect_wrap util request None = None"
proof -
  have round: "case redirect_wrap util request (Some u) of
         Some w \<Rightarrow> redirect_unwrap util (Str w) = Str u
       | None \<Rightarrow> False"
    if web: "is_web util u" and dom: "domain_from_link util u \<notin> Some ` set DOMAINS"
      and srv: "served_on_bridge util request"
  proof (cases "u = []")
    case True
    then show ?thesis by (simp add: redirect_wrap_def unwrap_domains_empty)
  next
    case False
    with dom have "redirect_wrap util request (Some u)
        = Some (host_url util request ''/r/'' @ u)"
      by (auto simp: redirect_wrap_def split: option.splits)
    with unwrap_wrapped [OF web srv] show ?thesis by simp
  qed
  have own: "redirect_wrap util request (Some u) = Some u"
    if "domain_from_link util u \<in> Some ` set DOMAINS"
    using that by (auto simp: redirect_wrap_def)
  have empty: "redirect_wrap util request (Some []) = Some []"
    "redirect_wrap util request None = None"
    by (simp_all add: redirect_wrap_def)
  from round own empty show ?thesis by blast
qed

theorem redirect_wrap_unwrap_witness:
  "is_web example_webutil ''https://foo.com/bar''
   \<and> domain_from_link example_webutil ''https://foo.com/bar'' \<notin> Some ` set DOMAINS
   \<and> served_on_bridge example_webutil bridge_request
   \<and> redirect_wrap example_webutil bridge_request (Some ''https://foo.com/bar'')
       = Some ''https://fed.brid.gy/r/https://foo.com/bar''
   \<and> redirect_unwrap example_webutil (Str ''https://fed.brid.gy/r/https://foo.com/bar'')
       = Str ''https://foo.com/bar''"
proof -
  have web: "is_web example_webutil ''https://foo.com/bar''"
    by (simp add: example_webutil_def startswith_def)
  have dom: "domain_from_link example_webutil ''https://foo.com/bar'' \<notin> Some ` set DOMAINS"
    by (auto simp: example_webutil_def DOMAINS_def PRIMARY_DOMAIN_def OTHER_DOMAINS_def
          LOCAL_DOMAINS_def)
  have srv: "served_on_bridge example_webutil bridge_request"
    by (simp add: served_on_bridge_def example_webutil_def bridge_request_def DOMAINS_def
          PRIMARY_DOMAIN_def LOCAL_DOMAINS_def OTHER_DOMAINS_def)
  have wrap: "redirect_wrap example_webutil bridge_request (Some ''https://foo.com/bar'')
       = Some ''https://fed.brid.gy/r/https://foo.com/bar''"
    by (simp add: redirect_wrap_def host_url_def example_webutil_def bridge_request_def
          DOMAINS_def PRIMARY_DOMAIN_def OTHER_DOMAINS_def LOCAL_DOMAINS_def)
  from redirect_wrap_unwrap [of example_webutil "''https://foo.com/bar''" bridge_request]
    web dom srv wrap
  show ?thesis by simp
qed

text \<open>Without the assumption on the request the wrapping is not undone: on a host
  outside \<^verbatim>\<open>DOMAINS\<close> the wrapped URL carries that host, which \<^verbatim>\<open>redirect_unwrap\<close>
  does not recognise.\<close>

lemma redirect_unwrap_foreign_host:
  "redirect_wrap example_webutil \<lparr>scheme = ''https'', host = ''example.org''\<rparr>
       (Some ''https://foo.com/bar'')
     = Some ''https://example.org/r/https://foo.com/bar''
   \<and> redirect_unwrap example_webutil (Str ''https://example.org/r/https://foo.com/bar'')
     = Str ''https://example.org/r/https://foo.com/bar''"
  by (simp add: redirect_wrap_def host_url_def example_webutil_def DOMAINS_def
        PRIMARY_DOMAIN_def OTHER_DOMAINS_def LOCAL_DOMAINS_def unwrap_scheme_def
        startswith_def)

section \<open>Properties of the redirect endpoint\<close>

text \<open>
  C8: when the URL of a request \<^verbatim>\<open>GET /r/<url>\<close>, as the endpoint reads it (query
  string put back, a single slash after the scheme expanded), is not a web URL, the
  endpoint answers 400 and has made no datastore or network call: it does not
  redirect, fetch or convert.
\<close>

theorem redir_not_web_400:
  assumes "\<not> util_is_web env (requested_url env request to)"
  shows "redir env request to = (Inl (HTTPException 400), [])"
  using assms by (simp add: redir_def)

theorem redir_not_web_400_witness:
  "\<not> util_is_web example_redir_env (requested_url example_redir_env html_request ''foo.com'')
   \<and> redir example_redir_env html_request ''foo.com'' = (Inl (HTTPException 400), [])"
proof -
  have nw: "\<not> util_is_web example_redir_env
               (requested_url example_redir_env html_request ''foo.com'')"
    by (simp add: example_redir_env_def requested_url_def html_request_def
          expand_scheme_slash_def startswith_def)
  from redir_not_web_400 [OF nw] nw show ?thesis by simp
qed

lemma check_domains_no_break:
  "check_domains env ds = (False, web_user, evs) \<Longrightarrow> web_user = None"
  by (induction ds arbitrary: evs)
     (auto split: option.splits if_splits prod.splits)

lemma redir_as2:
  assumes "util_is_web env (requested_url env request to0)"
    and "urlparse_hostname env (requested_url env request to0) = Inr to_domain"
    and "negotiated_type env request = Inr negotiated"
    and "accept_as2 negotiated = Some accept_type"
    and "check_domains env (set_iteration env
           [util_domain_from_link env (requested_url env request to0) True,
            util_domain_from_link env (requested_url env request to0) False,
            to_domain]) = (broke, web_user, evs)"
  shows "redir env request to0 =
           (fst (serve_as2 env (requested_url env request to0) accept_type web_user),
            evs @ snd (serve_as2 env (requested_url env request to0) accept_type web_user))"
  using assms by (simp add: redir_def Let_def split: prod.splits)

lemma serve_as2_trace:
  "\<exists>evs'. snd (serve_as2 env to accept_type web_user) = Ev_for_id to # evs'"
  by (auto simp: serve_as2_def Let_def split: sum.splits option.splits prod.splits)

lemma serve_as2_404:
  "fst (serve_as2 env to accept_type None) = Inr (plain_response 404) \<longleftrightarrow>
     Protocol_for_id env to = Inr None
     \<or> (\<exists>proto. Protocol_for_id env to = Inr (Some proto)
          \<and> (proto_load env proto to = Inr None
              \<or> (\<exists>obj. proto_load env proto to = Inr (Some obj)
                   \<and> (obj_deleted env obj
                       \<or> (proto = Web
                           \<and> Web_get_or_create env (util_domain_from_link env to True) obj
                               = None)))))"
  by (auto simp: serve_as2_def Let_def plain_response_def
           split: sum.splits option.splits prod.splits)

lemma serve_as2_200:
  assumes "Protocol_for_id env to = Inr (Some proto)"
    and "proto_load env proto to = Inr (Some obj)"
    and "\<not> obj_deleted env obj"
    and "user = (if proto = Web
                 then Web_get_or_create env (util_domain_from_link env to True) obj
                 else None)"
    and "proto = Web \<longrightarrow> user \<noteq> None"
    and "ActivityPub_convert env obj user = Inr ret"
  shows "serve_as2 env to accept_type None =
    (Inr \<lparr>status_code = 200, location = None,
          content_type = Some (if accept_type = as2_CONTENT_TYPE_LD
                               then as2_CONTENT_TYPE_LD_PROFILE else accept_type),
          body = Some ret\<rparr>,
     [Ev_for_id to, Ev_load to] @ (if proto = Web then [Ev_get_or_create] else [])
       @ [Ev_convert])"
  using assms by (auto simp: serve_as2_def Let_def)

text \<open>
  C10, as stated, fails: the request negotiates AS2, the URL's domain matches no stored
  Web user and is not on the allowlist, protocol resolution succeeds (Web) and the load
  succeeds with an object that is not deleted, and still the answer is 404, because
  \<^verbatim>\<open>Web.get_or_create\<close> returns no user.
\<close>

theorem redir_as2_404_without_user_counterexample:
  "negotiated_type (example_redir_env\<lparr>Web_get_or_create := (\<lambda>_ _. None)\<rparr>) as2_request
       = Inr (Some as2_CONTENT_TYPE)
   \<and> Protocol_for_id (example_redir_env\<lparr>Web_get_or_create := (\<lambda>_ _. None)\<rparr>)
         ''https://foo.com/bar'' = Inr (Some Web)
   \<and> proto_load (example_redir_env\<lparr>Web_get_or_create := (\<lambda>_ _. None)\<rparr>) Web
         ''https://foo.com/bar'' = Inr (Some ''https://foo.com/bar'')
   \<and> \<not> obj_deleted (example_redir_env\<lparr>Web_get_or_create := (\<lambda>_ _. None)\<rparr>)
         ''https://foo.com/bar''
   \<and> redir (example_redir_env\<lparr>Web_get_or_create := (\<lambda>_ _. None)\<rparr>) as2_request
         ''https://foo.com/bar''
       = (Inr (plain_response 404),
          [Ev_get_by_id ''foo.com'', Ev_for_id ''https://foo.com/bar'',
           Ev_load ''https://foo.com/bar'', Ev_get_or_create])"
  by (simp add: redir_def serve_as2_def requested_url_def negotiated_type_def accept_as2_def
        example_redir_env_def as2_request_def as2_CONTENT_TYPE_def as2_CONTENT_TYPE_LD_def
        expand_scheme_slash_def startswith_def removeprefix_def DOMAIN_ALLOWLIST_def
        Web_def Let_def)

text \<open>
  C10, amended: on a request for a web URL whose \<^verbatim>\<open>Accept\<close> header negotiates an AS2
  content type, the "no web user found" check is bypassed: also when the loop over the
  URL's domains finds neither a stored Web user nor an allowlisted domain, the endpoint
  goes on to protocol resolution. It answers 404 exactly when protocol resolution finds
  no protocol, or the load returns nothing or a deleted object, or the protocol is Web
  and \<^verbatim>\<open>Web.get_or_create\<close> returns no user; when none of these holds and the
  conversion returns, it answers 200 with the converted object.
\<close>

theorem redir_as2_bypasses_user_check:
  assumes to: "to = requested_url env request to0"
    and web: "util_is_web env to"
    and host: "urlparse_hostname env to = Inr to_domain"
    and neg: "negotiated_type env request = Inr negotiated"
    and as2: "accept_as2 negotiated = Some accept_type"
    and nouser: "check_domains env (set_iteration env
           [util_domain_from_link env to True, util_domain_from_link env to False,
            to_domain]) = (False, web_user, evs)"
  shows "\<exists>r evs'. redir env request to0 = (r, evs @ Ev_for_id to # evs')
    \<and> (r = Inr (plain_response 404) \<longleftrightarrow>
          Protocol_for_id env to = Inr None
          \<or> (\<exists>proto. Protocol_for_id env to = Inr (Some proto)
               \<and> (proto_load env proto to = Inr None
                   \<or> (\<exists>obj. proto_load env proto to = Inr (Some obj)
                        \<and> (obj_deleted env obj
                            \<or> (proto = Web
                                \<and> Web_get_or_create env (util_domain_from_link env to True) obj
                                    = None))))))
    \<and> (\<forall>proto obj user ret.
          Protocol_for_id env to = Inr (Some proto)
          \<and> proto_load env proto to = Inr (Some obj)
          \<and> \<not> obj_deleted env obj
          \<and> user = (if proto = Web
                     then Web_get_or_create env (util_domain_from_link env to True) obj
                     else None)
          \<and> (proto = Web \<longrightarrow> user \<noteq> None)
          \<and> ActivityPub_convert env obj user = Inr ret
          \<longrightarrow> r = Inr \<lparr>status_code = 200, location = None,
                    content_type = Some (if accept_type = as2_CONTENT_TYPE_LD
                                         then as2_CONTENT_TYPE_LD_PROFILE else accept_type),
                    body = Some ret\<rparr>)"
proof -
  from check_domains_no_break [OF nouser] have wu: "web_user = None" .
  let ?s = "serve_as2 env to accept_type None"
  have r: "redir env request to0 = (fst ?s, evs @ snd ?s)"
    using redir_as2 [OF web [unfolded to] host [unfolded to] neg as2 nouser [unfolded to]]
    by (simp add: to wu)
  from serve_as2_trace [of env to accept_type None]
  obtain evs' where tr: "snd ?s = Ev_for_id to # evs'" by blast
  have ok: "fst ?s = Inr \<lparr>status_code = 200, location = None,
                    content_type = Some (if accept_type = as2_CONTENT_TYPE_LD
                                         then as2_CONTENT_TYPE_LD_PROFILE else accept_type),
                    body = Some ret\<rparr>"
    if "Protocol_for_id env to = Inr (Some proto)"
      "proto_load env proto to = Inr (Some obj)" "\<not> obj_deleted env obj"
      "user = (if proto = Web
               then Web_get_or_create env (util_domain_from_link env to True) obj
               else None)"
      "proto = Web \<longrightarrow> user \<noteq> None" "ActivityPub_convert env obj user = Inr ret"
    for proto obj user ret
    using serve_as2_200 [OF that, of accept_type] by simp
  show ?thesis
    apply (rule exI [of _ "fst ?s"])
    apply (rule exI [of _ evs'])
    apply (intro conjI)
      apply (simp add: r tr)
     apply (rule serve_as2_404)
    using ok apply blast
    done
qed

theorem redir_as2_bypasses_user_check_witness:
  "util_is_web example_redir_env ''https://foo.com/bar''
   \<and> negotiated_type example_redir_env as2_request = Inr (Some as2_CONTENT_TYPE)
   \<and> accept_as2 (Some as2_CONTENT_TYPE) = Some as2_CONTENT_TYPE
   \<and> check_domains example_redir_env [Some ''foo.com''] = (False, None, [Ev_get_by_id ''foo.com''])
   \<and> (\<exists>evs'. redir example_redir_env as2_request ''https://foo.com/bar''
         = (Inr \<lparr>status_code = 200, location = None,
                  content_type = Some as2_CONTENT_TYPE,
                  body = Some ''https://foo.com/bar''\<rparr>,
            [Ev_get_by_id ''foo.com''] @ Ev_for_id ''https://foo.com/bar'' # evs'))"
proof -
  have to: "''https://foo.com/bar''
      = requested_url example_redir_env as2_request ''https://foo.com/bar''"
    by (simp add: requested_url_def as2_request_def expand_scheme_slash_def startswith_def
          removeprefix_def)
  have web: "util_is_web example_redir_env ''https://foo.com/bar''"
    by (simp add: example_redir_env_def startswith_def)
  have host: "urlparse_hostname example_redir_env ''https://foo.com/bar''
      = Inr (Some ''foo.com'')"
    by (simp add: example_redir_env_def)
  have neg: "negotiated_type example_redir_env as2_request = Inr (Some as2_CONTENT_TYPE)"
    by (simp add: negotiated_type_def example_redir_env_def as2_request_def
          as2_CONTENT_TYPE_def)
  have as2: "accept_as2 (Some as2_CONTENT_TYPE) = Some as2_CONTENT_TYPE"
    by (simp add: accept_as2_def)
  have cd: "check_domains example_redir_env [Some ''foo.com'']
      = (False, None, [Ev_get_by_id ''foo.com''])"
    by (simp add: example_redir_env_def DOMAIN_ALLOWLIST_def)
  have nouser: "check_domains example_redir_env (set_iteration example_redir_env
           [util_domain_from_link example_redir_env ''https://foo.com/bar'' True,
            util_domain_from_link example_redir_env ''https://foo.com/bar'' False,
            Some ''foo.com'']) = (False, None, [Ev_get_by_id ''foo.com''])"
    by (simp add: example_redir_env_def DOMAIN_ALLOWLIST_def)
  have conv: "Protocol_for_id example_redir_env ''https://foo.com/bar'' = Inr (Some Web)
          \<and> proto_load example_redir_env Web ''https://foo.com/bar''
              = Inr (Some ''https://foo.com/bar'')
          \<and> \<not> obj_deleted example_redir_env ''https://foo.com/bar''
          \<and> Some ''foo.com'' = (if Web = Web
                     then Web_get_or_create example_redir_env
                            (util_domain_from_link example_redir_env
                               ''https://foo.com/bar'' True) ''https://foo.com/bar''
                     else None)
          \<and> (Web = Web \<longrightarrow> Some ''foo.com'' \<noteq> None)
          \<and> ActivityPub_convert example_redir_env ''https://foo.com/bar'' (Some ''foo.com'')
              = Inr ''https://foo.com/bar''"
    by (simp add: example_redir_env_def)
  from redir_as2_bypasses_user_check [OF to web host neg as2 nouser]
  obtain r evs' where
    r: "redir example_redir_env as2_request ''https://foo.com/bar''
          = (r, [Ev_get_by_id ''foo.com''] @ Ev_for_id ''https://foo.com/bar'' # evs')"
    and ok: "\<forall>proto obj user ret.
          Protocol_for_id example_redir_env ''https://foo.com/bar'' = Inr (Some proto)
          \<and> proto_load example_redir_env proto ''https://foo.com/bar'' = Inr (Some obj)
          \<and> \<not> obj_deleted example_redir_env obj
          \<and> user = (if proto = Web
                     then Web_get_or_create example_redir_env
                            (util_domain_from_link example_redir_env
                               ''https://foo.com/bar'' True) obj
                     else None)
          \<and> (proto = Web \<longrightarrow> user \<noteq> None)
          \<and> ActivityPub_convert example_redir_env obj user = Inr ret
          \<longrightarrow> r = Inr \<lparr>status_code = 200, location = None,
                    content_type = Some (if as2_CONTENT_TYPE = as2_CONTENT_TYPE_LD
                                         then as2_CONTENT_TYPE_LD_PROFILE
                                         else as2_CONTENT_TYPE),
                    body = Some ret\<rparr>"
    by blast
  from ok conv have "r = Inr \<lparr>status_code = 200, location = None,
                    content_type = Some (if as2_CONTENT_TYPE = as2_CONTENT_TYPE_LD
                                         then as2_CONTENT_TYPE_LD_PROFILE
                                         else as2_CONTENT_TYPE),
                    body = Some ''https://foo.com/bar''\<rparr>"
    by blast
  then have "r = Inr \<lparr>status_code = 200, location = None,
                    content_type = Some as2_CONTENT_TYPE,
                    body = Some ''https://foo.com/bar''\<rparr>"
    by (simp add: as2_CONTENT_TYPE_def as2_CONTENT_TYPE_LD_def)
  with r web neg as2 cd show ?thesis by blast
qed

section \<open>Properties of receive\<close>

lemma lru_setitem_member: "k \<in> set (lru_setitem k ks)"
  by (simp add: lru_setitem_def)

lemma lru_setitem_present:
  assumes "k \<in> set ks"
  shows "set (lru_setitem k ks) = set ks"
proof -
  have sub: "set (remove1 k ks) \<subseteq> set ks" by (rule set_remove1_subset)
  have sup: "\<forall>x\<in>set ks. x \<noteq> k \<longrightarrow> x \<in> set (remove1 k ks)"
    by simp
  have "set (remove1 k ks @ [k]) = insert k (set (remove1 k ks))" by simp
  also have "\<dots> = set ks" using sub sup assms by blast
  finally have "set (remove1 k ks @ [k]) = set ks" .
  with assms show ?thesis by (simp add: lru_setitem_def)
qed

lemma receive_past_checks:
  assumes "receive env from_cls obj authed_as internal force st = (Inr n, st1, tasks)"
    and "as1 obj = Some a"
  shows "a \<noteq> [] \<and> (\<exists>i. activity_id obj a = Some i \<and> i \<noteq> []
           \<and> \<not> is_blocklisted env from_cls i internal
           \<and> (dict_get a ''objectType'' = Some (Str ''activity'') \<and> \<not> force
                \<longrightarrow> seen_ids st1 = lru_setitem i (seen_ids st)))"
proof -
  from assms have a: "a \<noteq> []"
    by (auto simp: receive_def split: if_splits)
  from assms a obtain i where i: "activity_id obj a = Some i"
    by (cases "activity_id obj a") (auto simp: receive_def)
  from assms a i have i0: "i \<noteq> []" and nb: "\<not> is_blocklisted env from_cls i internal"
    by (auto simp: receive_def split: if_splits)
  have "seen_ids st1 = lru_setitem i (seen_ids st)"
    if d: "dict_get a ''objectType'' = Some (Str ''activity'')" "\<not> force"
  proof (cases "already_handled env from_cls obj i st")
    case True
    with assms a i i0 nb d show ?thesis by (auto simp: receive_def)
  next
    case False
    with assms a i i0 nb d show ?thesis
      by (auto simp: receive_def Let_def split: option.splits if_splits prod.splits)
  qed
  with a i i0 nb show ?thesis by blast
qed

lemma receive_already_seen:
  assumes "as1 obj = Some a" "a \<noteq> []" "activity_id obj a = Some i" "i \<noteq> []"
    and "\<not> is_blocklisted env from_cls i internal"
    and "dict_get a ''objectType'' = Some (Str ''activity'')"
    and "i \<in> set (seen_ids st)"
  shows "receive env from_cls obj authed_as internal False st
           = (Inr 204, st\<lparr>seen_ids := lru_setitem i (seen_ids st)\<rparr>, [])"
  using assms by (simp add: receive_def already_handled_def)

text \<open>
  C3: for an activity with \<^verbatim>\<open>objectType\<close> \<^verbatim>\<open>activity\<close> and no force flag, after a first
  receive that returned, receiving the same activity again (same AS1 data, same id;
  whatever \<^verbatim>\<open>authed_as\<close>) returns 204, creates no task and leaves the datastore as it
  was: the first receive has recorded the id in \<^verbatim>\<open>seen_ids\<close>, and the second one only
  refreshes that entry.
\<close>

theorem receive_replay_noop:
  assumes act: "as1 obj = Some a" "dict_get a ''objectType'' = Some (Str ''activity'')"
    and i: "activity_id obj a = Some i"
    and first: "receive env from_cls obj authed_as internal False st = (Inr n, st1, tasks1)"
    and same: "as1 obj' = as1 obj" "activity_id obj' a = activity_id obj a"
  shows "receive env from_cls obj' authed_as' internal False st1
           = (Inr 204, st1\<lparr>seen_ids := lru_setitem i (seen_ids st1)\<rparr>, [])
         \<and> set (lru_setitem i (seen_ids st1)) = set (seen_ids st1)
         \<and> datastore (st1\<lparr>seen_ids := lru_setitem i (seen_ids st1)\<rparr>) = datastore st1"
proof -
  from receive_past_checks [OF first act(1)] act(2) i have
    a: "a \<noteq> []" and i0: "i \<noteq> []"
    and nb: "\<not> is_blocklisted env from_cls i internal"
    and seen: "seen_ids st1 = lru_setitem i (seen_ids st)"
    by auto
  from seen have mem: "i \<in> set (seen_ids st1)" by (simp add: lru_setitem_member)
  have "receive env from_cls obj' authed_as' internal False st1
          = (Inr 204, st1\<lparr>seen_ids := lru_setitem i (seen_ids st1)\<rparr>, [])"
    using same act a i i0 nb mem by (intro receive_already_seen) simp_all
  with mem show ?thesis by (simp add: lru_setitem_present)
qed

theorem receive_replay_noop_witness:
  "as1 follow_activity = Some [(''id'', Str ''f1''), (''objectType'', Str ''activity''),
                  (''verb'', Str ''follow''), (''actor'', Str ''https://inst/alice''),
                  (''object'', Str ''https://w-user.example/'')]
   \<and> receive example_receive_env ActivityPub follow_activity (Some ''https://inst/alice'')
         False False \<lparr>seen_ids = [], datastore = []\<rparr>
       = (Inr 202, \<lparr>seen_ids = [''f1''], datastore = [''f1'']\<rparr>, [''send''])
   \<and> receive example_receive_env ActivityPub follow_activity (Some ''https://inst/alice'')
         False False \<lparr>seen_ids = [''f1''], datastore = [''f1'']\<rparr>
       = (Inr 204, \<lparr>seen_ids = [''f1''], datastore = [''f1'']\<rparr>, [])"
proof -
  let ?a = "[(''id'', Str ''f1''), (''objectType'', Str ''activity''),
             (''verb'', Str ''follow''), (''actor'', Str ''https://inst/alice''),
             (''object'', Str ''https://w-user.example/'')]"
  have a: "as1 follow_activity = Some ?a" by (simp add: follow_activity_def)
  have ot: "dict_get ?a ''objectType'' = Some (Str ''activity'')" by (simp add: dict_get_def)
  have i: "activity_id follow_activity ?a = Some ''f1''"
    by (simp add: activity_id_def follow_activity_def dict_get_def)
  have first: "receive example_receive_env ActivityPub follow_activity
         (Some ''https://inst/alice'') False False \<lparr>seen_ids = [], datastore = []\<rparr>
       = (Inr 202, \<lparr>seen_ids = [''f1''], datastore = [''f1'']\<rparr>, [''send''])"
    by (simp add: receive_def already_handled_def example_receive_env_def
          lru_setitem_def follow_activity_def dict_get_def activity_id_def Let_def)
  have l: "lru_setitem ''f1'' [''f1''] = [''f1'']" by (simp add: lru_setitem_def)
  from receive_replay_noop [OF a ot i first refl refl, of "Some ''https://inst/alice''"]
    a first l
  show ?thesis by simp
qed




text \<open>
  The step before the authorization check has by then recorded the activity's id in
  \<^verbatim>\<open>seen_ids\<close>, the cache that the source describes as the "activity ids that we've
  already handled and can now ignore". So after an activity that was refused with 403,
  the activity with the same id from its real actor is answered 204 and never reaches
  the pipeline.
\<close>

lemma receive_refused_then_genuine_ignored:
  "receive example_receive_env ActivityPub follow_activity (Some ''https://inst/mallory'')
       False False \<lparr>seen_ids = [], datastore = []\<rparr>
     = (Inl (HTTPException 403), \<lparr>seen_ids = [''f1''], datastore = []\<rparr>, [])
   \<and> receive example_receive_env ActivityPub follow_activity (Some ''https://inst/alice'')
       False False \<lparr>seen_ids = [''f1''], datastore = []\<rparr>
     = (Inr 204, \<lparr>seen_ids = [''f1''], datastore = []\<rparr>, [])"
  by (simp add: receive_def already_handled_def example_receive_env_def
        lru_setitem_def follow_activity_def dict_get_def activity_id_def Let_def)

subsection \<open>The bounded cache of seen ids\<close>

lemma keeps_recentI:
  assumes "r = pre' @ i # post'" "distinct (pre' @ i # post')"
    "length (pre' @ i # post') \<le> m" "length post' \<le> n"
  shows "\<exists>pre' post'. r = pre' @ i # post' \<and> distinct (pre' @ i # post')
           \<and> length (pre' @ i # post') \<le> m \<and> length post' \<le> n"
  using assms by blast

lemma length_remove1_append_le:
  "j \<in> set xs \<Longrightarrow> length (remove1 j xs @ [j]) = length xs"
  using length_pos_if_in_set [of j xs] by (simp add: length_remove1)

lemma lru_setitem_keeps_recent:
  assumes d: "distinct (pre @ i # post)"
    and len: "length (pre @ i # post) \<le> seen_ids_maxsize"
    and room: "length post + 1 < seen_ids_maxsize"
  shows "\<exists>pre' post'. lru_setitem j (pre @ i # post) = pre' @ i # post'
           \<and> distinct (pre' @ i # post')
           \<and> length (pre' @ i # post') \<le> seen_ids_maxsize
           \<and> length post' \<le> length post + 1"
proof (cases "j = i")
  case True
  from d have "i \<notin> set pre" by auto
  then have e: "lru_setitem j (pre @ i # post) = (pre @ post) @ i # []"
    using True by (simp add: lru_setitem_def remove1_append)
  show ?thesis
    using e d len by (intro keeps_recentI [of _ "pre @ post" i "[]"]) auto
next
  case False
  show ?thesis
  proof (cases "j \<in> set pre")
    case True
    then have e: "lru_setitem j (pre @ i # post) = remove1 j pre @ i # (post @ [j])"
      by (simp add: lru_setitem_def remove1_append)
    from d True False have dd: "distinct (remove1 j pre @ i # (post @ [j]))"
      by (auto dest: notin_set_remove1)
    from True have "length (remove1 j pre) + 1 = length pre"
      using length_remove1_append_le [of j pre] by simp
    with len have ll: "length (remove1 j pre @ i # (post @ [j])) \<le> seen_ids_maxsize"
      by simp
    show ?thesis
      using e dd ll by (intro keeps_recentI [of _ "remove1 j pre" i "post @ [j]"]) auto
  next
    case npre: False
    show ?thesis
    proof (cases "j \<in> set post")
      case True
      with False npre have e:
        "lru_setitem j (pre @ i # post) = pre @ i # (remove1 j post @ [j])"
        by (simp add: lru_setitem_def remove1_append)
      from d True False npre have dd: "distinct (pre @ i # (remove1 j post @ [j]))"
        by (auto dest: notin_set_remove1)
      from True have lp: "length (remove1 j post @ [j]) = length post"
        by (rule length_remove1_append_le)
      with len have ll: "length (pre @ i # (remove1 j post @ [j])) \<le> seen_ids_maxsize"
        by simp
      show ?thesis
        using e dd ll lp by (intro keeps_recentI [of _ pre i "remove1 j post @ [j]"]) auto
    next
      case npost: False
      let ?ks = "pre @ i # post"
      from False npre npost have nin: "j \<notin> set ?ks" by simp
      then have l: "lru_setitem j ?ks = drop (length ?ks + 1 - seen_ids_maxsize) ?ks @ [j]"
        by (simp add: lru_setitem_def)
      show ?thesis
      proof (cases "length ?ks + 1 \<le> seen_ids_maxsize")
        case True
        with l have e: "lru_setitem j ?ks = pre @ i # (post @ [j])" by simp
        from d nin have dd: "distinct (pre @ i # (post @ [j]))" by auto
        from True have ll: "length (pre @ i # (post @ [j])) \<le> seen_ids_maxsize" by simp
        show ?thesis
          using e dd ll by (intro keeps_recentI [of _ pre i "post @ [j]"]) auto
      next
        case full: False
        with len have eq: "length ?ks + 1 - seen_ids_maxsize = 1" by simp
        from full room have "pre \<noteq> []" by auto
        then obtain p pre' where pre: "pre = p # pre'" by (cases pre) auto
        with l eq have e: "lru_setitem j ?ks = pre' @ i # (post @ [j])" by simp
        from d nin pre have dd: "distinct (pre' @ i # (post @ [j]))" by auto
        from len pre have ll: "length (pre' @ i # (post @ [j])) \<le> seen_ids_maxsize"
          by simp
        show ?thesis
          using e dd ll by (intro keeps_recentI [of _ pre' i "post @ [j]"]) auto
      qed
    qed
  qed
qed


lemma lru_setitem_last:
  assumes "distinct ks" "length ks \<le> seen_ids_maxsize"
  shows "\<exists>pre. lru_setitem i ks = pre @ i # [] \<and> distinct (pre @ i # [])
           \<and> length (pre @ i # []) \<le> seen_ids_maxsize"
proof (cases "i \<in> set ks")
  case True
  then have "lru_setitem i ks = remove1 i ks @ i # []" by (simp add: lru_setitem_def)
  moreover from assms(1) True have "distinct (remove1 i ks @ i # [])" by simp
  moreover from assms(2) True have "length (remove1 i ks @ i # []) \<le> seen_ids_maxsize"
    using length_remove1_append_le [of i ks] by simp
  ultimately show ?thesis by blast
next
  case False
  let ?pre = "drop (length ks + 1 - seen_ids_maxsize) ks"
  from False have "lru_setitem i ks = ?pre @ i # []" by (simp add: lru_setitem_def)
  moreover from assms(1) False have "distinct (?pre @ i # [])"
    by (auto dest: in_set_dropD)
  moreover have "length (?pre @ i # []) \<le> seen_ids_maxsize"
    by (simp add: seen_ids_maxsize_def)
  ultimately show ?thesis by blast
qed

lemma receive_seen_ids_step:
  "seen_ids (fst (snd (receive env from_cls obj authed_as internal force st))) = seen_ids st
   \<or> (\<exists>j. seen_ids (fst (snd (receive env from_cls obj authed_as internal force st)))
             = lru_setitem j (seen_ids st))"
  by (auto simp: receive_def Let_def split: option.splits prod.splits)

lemma receive_all_keeps_recent:
  "seen_ids st = pre @ i # post \<Longrightarrow> distinct (pre @ i # post) \<Longrightarrow>
   length (pre @ i # post) \<le> seen_ids_maxsize \<Longrightarrow>
   length post + length calls < seen_ids_maxsize \<Longrightarrow>
   i \<in> set (seen_ids (receive_all env calls st))"
proof (induction calls arbitrary: st pre post)
  case Nil
  then show ?case by simp
next
  case (Cons c calls)
  obtain from_cls obj authed_as internal force where
    c: "c = (from_cls, obj, authed_as, internal, force)" by (cases c) auto
  let ?st = "fst (snd (receive env from_cls obj authed_as internal force st))"
  from Cons.prems(4) have room: "length post + 1 < seen_ids_maxsize" by simp
  have "\<exists>pre' post'. seen_ids ?st = pre' @ i # post' \<and> distinct (pre' @ i # post')
           \<and> length (pre' @ i # post') \<le> seen_ids_maxsize
           \<and> length post' \<le> length post + 1"
  proof -
    from receive_seen_ids_step [of env from_cls obj authed_as internal force st]
    consider "seen_ids ?st = seen_ids st"
      | j where "seen_ids ?st = lru_setitem j (seen_ids st)" by blast
    then show ?thesis
    proof cases
      case 1
      with Cons.prems(1,2,3) show ?thesis
        by (intro keeps_recentI [of _ pre i post]) auto
    next
      case (2 j)
      with lru_setitem_keeps_recent [OF Cons.prems(2,3) room, of j] Cons.prems(1)
      show ?thesis by simp
    qed
  qed
  then obtain pre' post' where
    s: "seen_ids ?st = pre' @ i # post'" and d: "distinct (pre' @ i # post')"
    and l: "length (pre' @ i # post') \<le> seen_ids_maxsize"
    and p: "length post' \<le> length post + 1" by blast
  from p Cons.prems(4) have "length post' + length calls < seen_ids_maxsize" by simp
  from Cons.IH [OF s d l this] c show ?case by simp
qed

text \<open>
  The replay is still answered 204 when other calls of \<^verbatim>\<open>receive\<close> come in between,
  as long as they are fewer than the capacity of \<^verbatim>\<open>seen_ids\<close>: each call records at
  most one id, so the replayed id has not been evicted. The cache is assumed to hold
  distinct keys within its capacity, as it does from the empty cache on.
\<close>

theorem receive_replay_after_others:
  assumes wf: "distinct (seen_ids st)" "length (seen_ids st) \<le> seen_ids_maxsize"
    and act: "as1 obj = Some a" "dict_get a ''objectType'' = Some (Str ''activity'')"
    and i: "activity_id obj a = Some i"
    and first: "receive env from_cls obj authed_as internal False st = (Inr n, st1, tasks1)"
    and few: "length calls < seen_ids_maxsize"
    and same: "as1 obj' = as1 obj" "activity_id obj' a = activity_id obj a"
  shows "receive env from_cls obj' authed_as' internal False (receive_all env calls st1)
           = (Inr 204,
              (receive_all env calls st1)
                \<lparr>seen_ids := lru_setitem i (seen_ids (receive_all env calls st1))\<rparr>,
              [])"
proof -
  from receive_past_checks [OF first act(1)] act(2) i have
    a: "a \<noteq> []" and i0: "i \<noteq> []"
    and nb: "\<not> is_blocklisted env from_cls i internal"
    and seen: "seen_ids st1 = lru_setitem i (seen_ids st)"
    by auto
  from lru_setitem_last [OF wf, of i] seen obtain pre where
    s: "seen_ids st1 = pre @ i # []" and d: "distinct (pre @ i # [])"
    and l: "length (pre @ i # []) \<le> seen_ids_maxsize" by auto
  from few have "length ([] :: string list) + length calls < seen_ids_maxsize" by simp
  from receive_all_keeps_recent [OF s d l this]
  have mem: "i \<in> set (seen_ids (receive_all env calls st1))" .
  show ?thesis
    using same act a i i0 nb mem by (intro receive_already_seen) simp_all
qed

section \<open>Properties of the delivery planner\<close>

lemma dict_set_subset: "set (dict_set k v d) \<subseteq> insert (k, v) (set d)"
  by (induction k v d rule: dict_set.induct) auto

lemma dict_set_inv:
  assumes "P k" and "\<forall>x\<in>set d. P (fst x)"
  shows "\<forall>x\<in>set (dict_set k v d). P (fst x)"
  using assms dict_set_subset [of k v d] by auto

lemma dict_setdefault_inv:
  assumes "P k" and "\<forall>x\<in>set d. P (fst x)"
  shows "\<forall>x\<in>set (dict_setdefault k v d). P (fst x)"
  using assms by (auto simp: dict_setdefault_def)

lemma dict_lookup_in: "dict_lookup kvs k = Some v \<Longrightarrow> (k, v) \<in> set kvs"
  using map_of_SomeD [of "rev kvs" k v] by (simp add: dict_lookup_def)

text \<open>In the lemmas on the parts of \<^verbatim>\<open>targets\<close>, \<open>P\<close> is a property of targets that
  holds of every target on another protocol than \<open>cls\<close>.\<close>

lemma direct_target_keys:
  assumes nf: "LABEL cls \<noteq> ''fake''"
    and lbl: "\<forall>i p. for_id env i = Some p \<longrightarrow> LABEL p = LABEL cls \<longrightarrow> p = cls"
    and ok: "\<And>t. protocol t \<noteq> LABEL cls \<Longrightarrow> P t"
    and inv: "\<forall>x\<in>set (fst st). P (fst x)"
  shows "\<forall>x\<in>set (fst (direct_target env cls owner in_reply_to_owners i st)). P (fst x)"
proof (cases st)
  case (fields tm self orig)
  with inv have tm: "\<forall>x\<in>set tm. P (fst x)" by simp
  show ?thesis
  proof (cases "for_id env i")
    case None
    with fields tm show ?thesis by (simp add: direct_target_def)
  next
    case (Some p)
    have new: "\<forall>x\<in>set (dict_set \<lparr>protocol = LABEL p, uri = tgt\<rparr> v tm). P (fst x)"
      if "p \<noteq> cls" for tgt v
    proof (rule dict_set_inv [where P = P])
      from lbl Some that have "LABEL p \<noteq> LABEL cls" by auto
      then show "P \<lparr>protocol = LABEL p, uri = tgt\<rparr>" by (intro ok) simp
    qed (rule tm)
    show ?thesis
    proof (cases "p = cls")
      case True
      with fields tm Some nf show ?thesis
        by (simp add: direct_target_def Let_def split: option.splits)
    next
      case False
      from new [OF False] fields tm Some show ?thesis
        by (simp add: direct_target_def Let_def split: option.splits)
    qed
  qed
qed

lemma fold_direct_target_keys:
  assumes nf: "LABEL cls \<noteq> ''fake''"
    and lbl: "\<forall>i p. for_id env i = Some p \<longrightarrow> LABEL p = LABEL cls \<longrightarrow> p = cls"
    and ok: "\<And>t. protocol t \<noteq> LABEL cls \<Longrightarrow> P t"
  shows "\<forall>x\<in>set (fst st). P (fst x) \<Longrightarrow>
         \<forall>x\<in>set (fst (fold (direct_target env cls owner in_reply_to_owners) ids st)).
           P (fst x)"
proof (induction ids arbitrary: st)
  case Nil
  then show ?case by simp
next
  case (Cons i ids)
  have "\<forall>x\<in>set (fst (direct_target env cls owner in_reply_to_owners i st)). P (fst x)"
    using nf lbl ok Cons.prems by (rule direct_target_keys)
  from Cons.IH [OF this] show ?case by simp
qed

lemma follower_targets_keys:
  assumes ok: "\<And>t. protocol t \<noteq> L \<Longrightarrow> P t"
  shows "follower_targets env v users tm = Inr r \<Longrightarrow>
   \<forall>u\<in>set users. LABEL (key_class (u_key u)) \<noteq> L \<Longrightarrow>
   \<forall>x\<in>set tm. P (fst x) \<Longrightarrow>
   \<forall>x\<in>set r. P (fst x)"
proof (induction users arbitrary: tm)
  case Nil
  then show ?case by simp
next
  case (Cons u users)
  from Cons.prems(2) have us: "\<forall>u\<in>set users. LABEL (key_class (u_key u)) \<noteq> L"
    and u: "LABEL (key_class (u_key u)) \<noteq> L" by simp_all
  show ?case
  proof (cases "case u_obj u of None \<Rightarrow> None
                | Some profile \<Rightarrow> target_for env (key_class (u_key u)) profile True")
    case None
    with Cons.prems(1) have "follower_targets env v users tm = Inr r" by simp
    from Cons.IH [OF this us Cons.prems(3)] show ?thesis .
  next
    case (Some tgt)
    show ?thesis
    proof (cases "tgt = []")
      case True
      with Some Cons.prems(1) have "follower_targets env v users tm = Inr r" by simp
      from Cons.IH [OF this us Cons.prems(3)] show ?thesis .
    next
      case False
      show ?thesis
      proof (cases "dedupe_urls env [tgt]")
        case Nil
        with Some False Cons.prems(1) show ?thesis by simp
      next
        case (Cons tgt' rest)
        let ?tm = "dict_set \<lparr>protocol = LABEL (key_class (u_key u)), uri = tgt'\<rparr> v tm"
        from Some False Cons \<open>follower_targets env v (u # users) tm = Inr r\<close>
        have r: "follower_targets env v users ?tm = Inr r" by simp
        have "\<forall>x\<in>set ?tm. P (fst x)"
        proof (rule dict_set_inv [where P = P])
          from u show "P \<lparr>protocol = LABEL (key_class (u_key u)), uri = tgt'\<rparr>"
            by (intro ok) simp
        qed (rule \<open>\<forall>x\<in>set tm. P (fst x)\<close>)
        from Cons.IH [OF r us this] show ?thesis .
      qed
    qed
  qed
qed

lemma final_targets_keys:
  "final_targets util sd cands urls tm = Inr r \<Longrightarrow>
   \<forall>url t orig. dict_lookup cands url = Some (t, orig) \<longrightarrow> P t \<Longrightarrow>
   \<forall>x\<in>set tm. P (fst x) \<Longrightarrow>
   \<forall>x\<in>set r. P (fst x)"
proof (induction urls arbitrary: tm)
  case Nil
  then show ?case by simp
next
  case (Cons url urls)
  show ?case
  proof (cases "is_web util url \<and> domain_from_link util url \<in> set sd")
    case True
    with Cons.prems(1) have "final_targets util sd cands urls tm = Inr r" by simp
    from Cons.IH [OF this Cons.prems(2) Cons.prems(3)] show ?thesis .
  next
    case False
    with Cons.prems(1) obtain t orig where
      lk: "dict_lookup cands url = Some (t, orig)"
      and r: "final_targets util sd cands urls (dict_set t orig tm) = Inr r"
      by (auto split: option.splits)
    from lk Cons.prems(2) have "P t" by blast
    then have "\<forall>x\<in>set (dict_set t orig tm). P (fst x)"
      using Cons.prems(3) by (rule dict_set_inv [where P = P])
    from Cons.IH [OF r Cons.prems(2) this] show ?thesis .
  qed
qed

lemma dedupe_targets_keys:
  assumes "dedupe_targets util env a all_targets = Inr r"
    and "\<forall>x\<in>set all_targets. P (fst x)"
  shows "\<forall>x\<in>set r. P (fst x)"
proof -
  let ?cands = "map (\<lambda>(t, orig). (uri t, (t, orig))) all_targets"
  have c: "\<forall>url t orig. dict_lookup ?cands url = Some (t, orig) \<longrightarrow> P t"
  proof (intro allI impI)
    fix url t orig assume "dict_lookup ?cands url = Some (t, orig)"
    then have "(url, (t, orig)) \<in> set ?cands" by (rule dict_lookup_in)
    then have "(t, orig) \<in> set all_targets" by auto
    with assms(2) show "P t" by force
  qed
  from assms(1) have "final_targets util
      (map (domain_from_link util)
             (filter (is_web util)
                (List.map_filter (\<lambda>x. x)
                   [str_field a ''id'', str_field a ''url'', get_owner env a])))
      ?cands (sort (dedupe_urls env (dict_keys ?cands))) [] = Inr r"
    by (simp add: dedupe_targets_def Let_def)
  from final_targets_keys [OF this c] show ?thesis by simp
qed

lemma get_multi_users_key: "u \<in> set (get_multi_users env ks) \<Longrightarrow> u_key u \<in> set ks"
  by (auto simp: get_multi_users_def List.map_filter_def)

lemma follower_fan_out_keys:
  assumes r: "follower_fan_out util env tbl obj from_user user_key is_reply irp direct orig_obj
                = Inr r"
    and fol: "\<forall>f\<in>set tbl. f_to f = user_key \<longrightarrow> LABEL (key_class (f_from f)) \<noteq> L"
    and ok: "\<And>t. protocol t \<noteq> L \<Longrightarrow> P t"
    and pds: "''atproto'' \<in> set (enabled_protocols from_user)
                \<Longrightarrow> P \<lparr>protocol = ''atproto'', uri = PDS_URL env\<rparr>"
    and inv: "\<forall>x\<in>set direct. P (fst x)"
  shows "\<forall>x\<in>set r. P (fst x)"
proof -
  let ?followers = "filter (\<lambda>f. for_bridgy_subdomain env (key_ident (f_from f)) = None)
                       (active_followers user_key tbl)"
  let ?user_keys = "if is_reply
                    then filter (\<lambda>k. get_kind env (key_class k) \<in> set irp)
                           (map f_from ?followers)
                    else map f_from ?followers"
  let ?users = "get_multi_users env ?user_keys"
  let ?with = "if ''atproto'' \<in> set (enabled_protocols from_user) then
              (if ?followers = []
                  \<and> (on_limited_domain util env (Some (key_ident (u_key from_user)))
                      \<or> on_limited_domain util env (object_key_id obj))
               then direct
               else if (is_reply \<or> obj_type obj = Some ''share'') \<and> direct = [] then direct
               else dict_setdefault \<lparr>protocol = ''atproto'', uri = PDS_URL env\<rparr> None direct)
            else direct"
  have keys: "\<forall>k\<in>set ?user_keys. LABEL (key_class k) \<noteq> L"
    using fol by (auto simp: active_followers_def)
  have users: "\<forall>u\<in>set ?users. LABEL (key_class (u_key u)) \<noteq> L"
  proof
    fix u assume "u \<in> set ?users"
    then have "u_key u \<in> set ?user_keys" by (rule get_multi_users_key)
    with keys show "LABEL (key_class (u_key u)) \<noteq> L" by blast
  qed
  have sd: "\<forall>x\<in>set (dict_setdefault \<lparr>protocol = ''atproto'', uri = PDS_URL env\<rparr> None direct).
              P (fst x)"
    if "''atproto'' \<in> set (enabled_protocols from_user)"
    using pds [OF that] inv by (rule dict_setdefault_inv [where P = P])
  have w: "\<forall>x\<in>set ?with. P (fst x)"
    using inv sd by (simp only: split: if_splits) blast
  from r have "follower_targets env (if obj_type obj = Some ''share'' then orig_obj else None)
                 ?users ?with = Inr r"
    by (simp add: follower_fan_out_def Let_def)
  from follower_targets_keys [where P = P, OF ok this users w] show ?thesis .
qed

text \<open>The keys that \<^verbatim>\<open>key_for\<close> and \<^verbatim>\<open>actor_key\<close> return on a class are keys of
  that class.\<close>

lemma key_for_class: "key_for env cls uid = Some k \<Longrightarrow> key_class k = cls"
  by (auto simp: key_for_def split: option.splits if_splits)

lemma actor_key_class: "actor_key env cls obj = Some k \<Longrightarrow> key_class k = cls"
  by (auto simp: actor_key_def dest: key_for_class split: option.splits if_splits)

text \<open>
  No write of \<^verbatim>\<open>protocol.py\<close> leaves a \<^verbatim>\<open>Follower\<close> between two users of one protocol
  class, except on \<^verbatim>\<open>fake\<close>: \<^verbatim>\<open>handle_follow\<close> skips such a followee, and the other
  writes change only the status.
\<close>

lemma follower_get_or_create_cross:
  assumes "\<forall>f\<in>set tbl. key_class (f_from f) = key_class (f_to f)
             \<longrightarrow> LABEL (key_class (f_from f)) = ''fake''"
    and "key_class from_key = key_class to_key \<longrightarrow> LABEL (key_class from_key) = ''fake''"
  shows "\<forall>f\<in>set (follower_get_or_create to_key from_key tbl).
           key_class (f_from f) = key_class (f_to f)
             \<longrightarrow> LABEL (key_class (f_from f)) = ''fake''"
  using assms by (auto simp: follower_get_or_create_def)

lemma store_followers_skip:
  "str_field to_as1 ''id'' = Some to_id \<Longrightarrow> to_id \<noteq> [] \<Longrightarrow>
   LABEL from_cls \<noteq> ''fake'' \<Longrightarrow> for_id env to_id = Some from_cls \<Longrightarrow>
   store_followers env from_cls from_user obj (to_as1 # to_as1s) tbl
     = store_followers env from_cls from_user obj to_as1s tbl"
  by simp

lemma store_followers_store:
  assumes "str_field to_as1 ''id'' = Some to_id" and "to_id \<noteq> []"
    and "for_id env to_id = Some to_cls"
    and "\<not> (from_cls = to_cls \<and> LABEL from_cls \<noteq> ''fake'')"
  shows "store_followers env from_cls from_user obj (to_as1 # to_as1s) tbl
     = (case key_for env to_cls to_id of
          None \<Rightarrow> store_followers env from_cls from_user obj to_as1s tbl
        | Some to_key \<Rightarrow>
           (let to_user = \<lparr>key_class = to_cls,
                           key_ident = user_get_or_create env to_cls (key_ident to_key)\<rparr>;
                tbl' = follower_get_or_create to_user from_user tbl
            in case maybe_accept_follow env from_user to_user obj of
                 Some e \<Rightarrow> (Inl e, tbl')
               | None \<Rightarrow> store_followers env from_cls from_user obj to_as1s tbl'))"
  by (simp only: store_followers.simps assms(1) assms(3) option.case
        if_not_P [OF assms(2)] if_not_P [OF assms(4)])

lemma store_followers_cross:
  assumes cls: "key_class from_user = from_cls"
  shows "\<forall>f\<in>set tbl. key_class (f_from f) = key_class (f_to f)
             \<longrightarrow> LABEL (key_class (f_from f)) = ''fake'' \<Longrightarrow>
         \<forall>f\<in>set (snd (store_followers env from_cls from_user obj to_as1s tbl)).
           key_class (f_from f) = key_class (f_to f)
             \<longrightarrow> LABEL (key_class (f_from f)) = ''fake''"
proof (induction to_as1s arbitrary: tbl)
  case Nil
  then show ?case by simp
next
  case (Cons to_as1 to_as1s)
  note inv = Cons.prems
  show ?case
  proof (cases "str_field to_as1 ''id''")
    case None
    with inv show ?thesis by simp
  next
    case (Some to_id)
    show ?thesis
    proof (cases "to_id = []")
      case True
      with Some inv show ?thesis by simp
    next
      case ne: False
      show ?thesis
      proof (cases "for_id env to_id")
        case None
        with Some ne inv show ?thesis by simp
      next
        case to_cls: (Some to_cls)
        show ?thesis
        proof (cases "from_cls = to_cls \<and> LABEL from_cls \<noteq> ''fake''")
          case True
          from True have same: "to_cls = from_cls" by simp
          from True have nf: "LABEL from_cls \<noteq> ''fake''" by (rule conjunct2)
          from to_cls same have "for_id env to_id = Some from_cls" by (simp only:)
          with Some ne nf
          have "store_followers env from_cls from_user obj (to_as1 # to_as1s) tbl
                  = store_followers env from_cls from_user obj to_as1s tbl"
            by (rule store_followers_skip)
          with Cons.IH [OF inv] show ?thesis by (simp only:)
        next
          case guard: False
          note step = store_followers_store [OF Some ne to_cls guard]
          show ?thesis
          proof (cases "key_for env to_cls to_id")
            case None
            with Cons.IH [OF inv] show ?thesis by (simp only: step option.case)
          next
            case to_key: (Some to_key)
            let ?to_user = "\<lparr>key_class = to_cls,
                             key_ident = user_get_or_create env to_cls (key_ident to_key)\<rparr>"
            let ?tbl = "follower_get_or_create ?to_user from_user tbl"
            have "key_class from_user = key_class ?to_user
                    \<longrightarrow> LABEL (key_class from_user) = ''fake''"
            proof
              assume "key_class from_user = key_class ?to_user"
              with cls have "from_cls = to_cls" by simp
              with guard have "LABEL from_cls = ''fake''" by simp
              with cls show "LABEL (key_class from_user) = ''fake''" by simp
            qed
            with inv have inv': "\<forall>f\<in>set ?tbl. key_class (f_from f) = key_class (f_to f)
                                   \<longrightarrow> LABEL (key_class (f_from f)) = ''fake''"
              by (rule follower_get_or_create_cross)
            show ?thesis
            proof (cases "maybe_accept_follow env from_user ?to_user obj")
              case None
              with to_key Cons.IH [OF inv'] show ?thesis
                by (simp only: step option.case Let_def)
            next
              case (Some e)
              with to_key inv' show ?thesis
                by (simp only: step option.case Let_def snd_conv)
            qed
          qed
        qed
      qed
    qed
  qed
qed

lemma handle_follow_cross:
  assumes inv: "\<forall>f\<in>set tbl. key_class (f_from f) = key_class (f_to f)
                  \<longrightarrow> LABEL (key_class (f_from f)) = ''fake''"
  shows "\<forall>f\<in>set (snd (handle_follow env from_cls obj tbl)).
           key_class (f_from f) = key_class (f_to f)
             \<longrightarrow> LABEL (key_class (f_from f)) = ''fake''"
proof -
  have st: "\<forall>f\<in>set (snd (store_followers env from_cls
                \<lparr>key_class = from_cls, key_ident = i\<rparr> obj to_as1s tbl)).
           key_class (f_from f) = key_class (f_to f)
             \<longrightarrow> LABEL (key_class (f_from f)) = ''fake''" for i to_as1s
    by (rule store_followers_cross [OF _ inv]) simp
  show ?thesis
    using inv st
    by (simp add: handle_follow_def Let_def split: option.splits)
qed

lemma stop_following_cross:
  "\<forall>f\<in>set tbl. key_class (f_from f) = key_class (f_to f)
      \<longrightarrow> LABEL (key_class (f_from f)) = ''fake'' \<Longrightarrow>
   \<forall>f\<in>set (stop_following from_key to_key tbl).
      key_class (f_from f) = key_class (f_to f) \<longrightarrow> LABEL (key_class (f_from f)) = ''fake''"
  by (induction tbl) auto

lemma deactivate_followers_cross:
  "\<forall>f\<in>set tbl. key_class (f_from f) = key_class (f_to f)
      \<longrightarrow> LABEL (key_class (f_from f)) = ''fake'' \<Longrightarrow>
   \<forall>f\<in>set (deactivate_followers deleted_user tbl).
      key_class (f_from f) = key_class (f_to f) \<longrightarrow> LABEL (key_class (f_from f)) = ''fake''"
  by (auto simp: deactivate_followers_def)

lemma write_followers_cross:
  assumes "\<forall>f\<in>set tbl. key_class (f_from f) = key_class (f_to f)
             \<longrightarrow> LABEL (key_class (f_from f)) = ''fake''"
  shows "\<forall>f\<in>set (write_followers w tbl).
           key_class (f_from f) = key_class (f_to f)
             \<longrightarrow> LABEL (key_class (f_from f)) = ''fake''"
proof (cases w)
  case (Follow env from_cls obj)
  with handle_follow_cross [OF assms] show ?thesis by simp
next
  case (StopFollowing from_key to_key)
  with stop_following_cross [OF assms] show ?thesis by simp
next
  case (DeleteActor deleted_user)
  with deactivate_followers_cross [OF assms] show ?thesis by simp
qed

lemma fold_write_followers_cross:
  "\<forall>f\<in>set tbl. key_class (f_from f) = key_class (f_to f)
      \<longrightarrow> LABEL (key_class (f_from f)) = ''fake'' \<Longrightarrow>
   \<forall>f\<in>set (fold write_followers history tbl).
      key_class (f_from f) = key_class (f_to f) \<longrightarrow> LABEL (key_class (f_from f)) = ''fake''"
proof (induction history arbitrary: tbl)
  case Nil
  then show ?case by simp
next
  case (Cons w history)
  from Cons.IH [OF write_followers_cross [OF Cons.prems]] show ?case by simp
qed

lemma followers_after_cross:
  "\<forall>f\<in>set (followers_after history).
      key_class (f_from f) = key_class (f_to f) \<longrightarrow> LABEL (key_class (f_from f)) = ''fake''"
  unfolding followers_after_def by (rule fold_write_followers_cross) simp

text \<open>
  C5, as stated, fails in two ways. For the protocol \<^verbatim>\<open>fake\<close> the same-protocol guard
  of the loop over the direct targets is switched off (\<^verbatim>\<open>cls.LABEL != 'fake'\<close>), so a
  like received from Fake of a Fake post is planned for a target on Fake. And the
  ATProto PDS is added as a target whenever the sender has \<^verbatim>\<open>atproto\<close> among the
  enabled protocols, whatever the sender's own protocol is (\<^verbatim>\<open>receive\<close> enables the
  protocol of a followed bot user without comparing it with the follower's), so a post
  received from ATProto of such a sender is planned for a target on ATProto. Both in a
  datastore without any \<^verbatim>\<open>Follower\<close>.
\<close>

theorem targets_same_protocol_counterexample:
  "source_protocol fake_like = Some (LABEL Fake)
   \<and> targets planner_webutil example_targets_env (followers_after []) Fake fake_like fake_alice
       = Inr [(\<lparr>protocol = LABEL Fake, uri = ''fake:post''\<rparr>, Some (loaded ''fake:post''))]
   \<and> source_protocol bsky_post = Some (LABEL ATProto)
   \<and> targets planner_webutil example_targets_env (followers_after []) ATProto bsky_post
         bsky_alice
       = Inr [(\<lparr>protocol = LABEL ATProto, uri = PDS_URL example_targets_env\<rparr>, None)]"
proof -
  have "targets planner_webutil example_targets_env (followers_after []) Fake fake_like
          fake_alice
       = Inr [(\<lparr>protocol = LABEL Fake, uri = ''fake:post''\<rparr>, Some (loaded ''fake:post''))]"
    by (simp add: targets_def example_targets_env_def fake_like_def fake_alice_def
        planner_webutil_def sorted_set_def str_field_def dict_get_def direct_target_def
        owner_of_def loaded_def Fake_def startswith_def dedupe_targets_def dict_keys_def
        dict_lookup_def List.map_filter_def Let_def actor_key_def key_for_def
        followers_after_def)
  moreover
  have "targets planner_webutil example_targets_env (followers_after []) ATProto bsky_post
          bsky_alice
       = Inr [(\<lparr>protocol = LABEL ATProto, uri = PDS_URL example_targets_env\<rparr>, None)]"
    by (simp add: targets_def example_targets_env_def bsky_post_def bsky_alice_def
        planner_webutil_def sorted_set_def str_field_def dict_get_def direct_target_def
        owner_of_def loaded_def ATProto_def startswith_def dedupe_targets_def dict_keys_def
        dict_lookup_def List.map_filter_def Let_def actor_key_def key_for_def
        followers_after_def follower_fan_out_def active_followers_def get_multi_users_def
        on_limited_domain_def dict_setdefault_def)
  moreover
  have "source_protocol fake_like = Some (LABEL Fake)"
    by (simp add: fake_like_def Fake_def)
  moreover
  have "source_protocol bsky_post = Some (LABEL ATProto)"
    by (simp add: bsky_post_def ATProto_def)
  ultimately show ?thesis by (simp only: simp_thms)
qed

text \<open>
  C5, amended: let an activity be received on a protocol class \<open>cls\<close> other than the
  test protocol \<^verbatim>\<open>fake\<close>, in a datastore whose \<^verbatim>\<open>Follower\<close> entities are those that
  some history of the writes of \<^verbatim>\<open>protocol.py\<close> (follows, stop-followings, deletes
  of actors) has left. Then the only Target with \<open>protocol = LABEL cls\<close> that the map
  returned by \<^verbatim>\<open>targets\<close> can contain is the ATProto PDS, and only when \<open>cls\<close> is
  \<^verbatim>\<open>atproto\<close> and the sender has \<^verbatim>\<open>atproto\<close> among the enabled protocols. Direct
  targets owned by \<open>cls\<close> are skipped; the fan-out to followers produces no target on
  \<open>cls\<close>, because a target made for a follower carries the label of the follower's
  class and \<^verbatim>\<open>handle_follow\<close> stores no \<^verbatim>\<open>Follower\<close> between two users of one class;
  the final de-duplication only drops targets. (Protocol classes are identified by
  their label, as in the registry: a class that \<^verbatim>\<open>for_id\<close> returns, or that a follower
  belongs to, with the label of \<open>cls\<close> is \<open>cls\<close>.)
\<close>

theorem targets_not_same_protocol:
  assumes nf: "LABEL cls \<noteq> ''fake''"
    and lbl: "\<forall>i p. for_id env i = Some p \<longrightarrow> LABEL p = LABEL cls \<longrightarrow> p = cls"
    and flbl: "\<forall>f\<in>set (followers_after history).
                 LABEL (key_class (f_from f)) = LABEL cls \<longrightarrow> key_class (f_from f) = cls"
    and res: "targets util env (followers_after history) cls obj from_user = Inr result"
  shows "\<forall>x\<in>set result. protocol (fst x) = LABEL cls \<longrightarrow>
           LABEL cls = ''atproto'' \<and> ''atproto'' \<in> set (enabled_protocols from_user)
           \<and> fst x = \<lparr>protocol = ''atproto'', uri = PDS_URL env\<rparr>"
proof -
  define P where "P = (\<lambda>t. protocol t = LABEL cls \<longrightarrow>
           LABEL cls = ''atproto'' \<and> ''atproto'' \<in> set (enabled_protocols from_user)
           \<and> t = \<lparr>protocol = ''atproto'', uri = PDS_URL env\<rparr>)"
  have ok: "P t" if "protocol t \<noteq> LABEL cls" for t
    using that by (simp add: P_def)
  have pds: "P \<lparr>protocol = ''atproto'', uri = PDS_URL env\<rparr>"
    if "''atproto'' \<in> set (enabled_protocols from_user)"
    using that by (auto simp: P_def)
  let ?tbl = "followers_after history"
  from res obtain a where a: "as1 obj = Some a"
    by (cases "as1 obj") (auto simp: targets_def)
  let ?irt = "as1_get_ids env (as1_get_object env a) ''inReplyTo''"
  from res a obtain irp iro where
    info: "in_reply_to_info env (source_protocol obj) ?irt = Inr (irp, iro)"
    by (cases "in_reply_to_info env (source_protocol obj) ?irt")
       (auto simp: targets_def Let_def)
  let ?is_reply = "obj_type obj = Some ''comment'' \<or> ?irt \<noteq> []"
  have "\<forall>x\<in>set result. P (fst x)"
  proof (cases "?is_reply \<and> irp = []")
    case True
    with res a info have "result = []" by (auto simp: targets_def Let_def)
    then show ?thesis by simp
  next
    case False
    obtain direct is_self_reply orig_obj where
      f: "fold (direct_target env cls (get_owner env a) iro)
            (sort (sorted_set (as1_targets env a))) ([], False, None)
          = (direct, is_self_reply, orig_obj)"
      by (cases "fold (direct_target env cls (get_owner env a) iro)
            (sort (sorted_set (as1_targets env a))) ([], False, None)") auto
    have "\<forall>x\<in>set (fst (fold (direct_target env cls (get_owner env a) iro)
            (sort (sorted_set (as1_targets env a))) ([], False, None))). P (fst x)"
      by (rule fold_direct_target_keys [where P = P, OF nf lbl ok]) simp_all
    with f have d: "\<forall>x\<in>set direct. P (fst x)" by simp
    show ?thesis
    proof (cases "actor_key env cls obj")
      case None
      with res a info False f have "result = direct"
        by (auto simp: targets_def Let_def)
      with d show ?thesis by simp
    next
      case (Some user_key)
      then have uk: "key_class user_key = cls" by (rule actor_key_class)
      let ?fan = "if obj_type obj \<in> Some ` {''post'', ''update'', ''delete'', ''share''}
                     \<and> (\<not> ?is_reply \<or> (is_self_reply \<and> irp \<noteq> []))
                  then follower_fan_out util env ?tbl obj from_user user_key ?is_reply
                         irp direct orig_obj
                  else Inr direct"
      from res a info False f Some obtain all_targets where
        fan: "?fan = Inr all_targets"
        and dd: "dedupe_targets util env a all_targets = Inr result"
        by (cases ?fan) (auto simp: targets_def Let_def)
      have "\<forall>x\<in>set all_targets. P (fst x)"
      proof (cases "obj_type obj \<in> Some ` {''post'', ''update'', ''delete'', ''share''}
                     \<and> (\<not> ?is_reply \<or> (is_self_reply \<and> irp \<noteq> []))")
        case True
        with fan have ff: "follower_fan_out util env ?tbl obj from_user user_key ?is_reply
                         irp direct orig_obj = Inr all_targets" by simp
        have fol: "\<forall>f\<in>set ?tbl. f_to f = user_key
                     \<longrightarrow> LABEL (key_class (f_from f)) \<noteq> LABEL cls"
        proof (intro ballI impI notI)
          fix f assume f: "f \<in> set ?tbl" and to: "f_to f = user_key"
            and same: "LABEL (key_class (f_from f)) = LABEL cls"
          from flbl f same have "key_class (f_from f) = cls" by blast
          with to uk have "key_class (f_from f) = key_class (f_to f)" by simp
          with followers_after_cross f have "LABEL (key_class (f_from f)) = ''fake''"
            by blast
          with same nf show False by simp
        qed
        from follower_fan_out_keys [where P = P, OF ff fol ok pds d] show ?thesis .
      next
        case False
        then have "?fan = Inr direct" by (rule if_not_P)
        with fan have "all_targets = direct" by simp
        with d show ?thesis by simp
      qed
      from dedupe_targets_keys [where P = P, OF dd this] show ?thesis .
    qed
  qed
  then show ?thesis by (simp only: P_def)
qed

text \<open>
  The ActivityPub user \<^verbatim>\<open>https://inst/bob\<close> has followed the Web user
  \<^verbatim>\<open>https://user.com/\<close>, who reposts a Web post. The repost's direct target is owned
  by Web and is skipped; the repost goes to the follower's inbox on ActivityPub.
\<close>

theorem targets_not_same_protocol_witness:
  "LABEL Web \<noteq> ''fake''
   \<and> followers_after [Follow example_targets_env ActivityPub bob_follow]
       = [\<lparr>f_from = bob_key, f_to = user_com_key, f_status = ''active''\<rparr>]
   \<and> as1_targets example_targets_env (the (as1 web_share)) = [''https://other.com/post'']
   \<and> for_id example_targets_env ''https://other.com/post'' = Some Web
   \<and> targets planner_webutil example_targets_env
         (followers_after [Follow example_targets_env ActivityPub bob_follow])
         Web web_share user_com
       = Inr [(\<lparr>protocol = ''activitypub'', uri = ''https://inst/inbox''\<rparr>,
               Some (loaded ''https://other.com/post''))]
   \<and> protocol \<lparr>protocol = ''activitypub'', uri = ''https://inst/inbox''\<rparr> \<noteq> LABEL Web"
proof -
  let ?history = "[Follow example_targets_env ActivityPub bob_follow]"
  have nf: "LABEL Web \<noteq> ''fake''" by (simp add: Web_def)
  have lbl: "\<forall>i p. for_id example_targets_env i = Some p \<longrightarrow> LABEL p = LABEL Web
               \<longrightarrow> p = Web"
    by (auto simp: example_targets_env_def Web_def Fake_def ActivityPub_def ATProto_def
             split: if_splits)
  have tbl: "followers_after ?history
       = [\<lparr>f_from = bob_key, f_to = user_com_key, f_status = ''active''\<rparr>]"
    by (simp add: followers_after_def handle_follow_def example_targets_env_def
          bob_follow_def str_field_def dict_get_def startswith_def key_for_def
          follower_get_or_create_def bob_key_def user_com_key_def Web_def ActivityPub_def
          loaded_def Let_def)
  have flbl: "\<forall>f\<in>set (followers_after ?history).
                 LABEL (key_class (f_from f)) = LABEL Web \<longrightarrow> key_class (f_from f) = Web"
    unfolding tbl by (simp add: bob_key_def ActivityPub_def Web_def)
  have tg: "as1_targets example_targets_env (the (as1 web_share))
              = [''https://other.com/post'']"
    by (simp add: example_targets_env_def web_share_def str_field_def dict_get_def)
  have fid: "for_id example_targets_env ''https://other.com/post'' = Some Web"
    by (simp add: example_targets_env_def startswith_def)
  have res: "targets planner_webutil example_targets_env (followers_after ?history)
               Web web_share user_com
       = Inr [(\<lparr>protocol = ''activitypub'', uri = ''https://inst/inbox''\<rparr>,
               Some (loaded ''https://other.com/post''))]"
    unfolding tbl
    by (simp add: targets_def example_targets_env_def web_share_def user_com_def
        planner_webutil_def sorted_set_def str_field_def dict_get_def direct_target_def
        owner_of_def loaded_def Web_def ActivityPub_def startswith_def dedupe_targets_def
        dict_keys_def dict_lookup_def List.map_filter_def Let_def follower_fan_out_def
        bob_key_def user_com_key_def actor_key_def key_for_def active_followers_def
        get_multi_users_def)
  from targets_not_same_protocol [OF nf lbl flbl res]
  have "protocol \<lparr>protocol = ''activitypub'', uri = ''https://inst/inbox''\<rparr> \<noteq> LABEL Web"
    by (simp add: Web_def)
  with nf tbl tg fid res show ?thesis by (simp only: simp_thms)
qed

text \<open>
  The loop over the followers has no same-protocol guard of its own: with a
  \<^verbatim>\<open>Follower\<close> from a Web user, which no write of \<^verbatim>\<open>protocol.py\<close> leaves, the post of
  the Web user would be planned for a target on Web.
\<close>

lemma targets_follower_on_same_protocol:
  "targets planner_webutil example_targets_env
       [\<lparr>f_from = \<lparr>key_class = Web, key_ident = ''https://other.com/''\<rparr>, f_to = user_com_key,
         f_status = ''active''\<rparr>]
       Web web_post user_com
     = Inr [(\<lparr>protocol = ''web'', uri = ''https://other.com/''\<rparr>, None)]"
  by (simp add: targets_def example_targets_env_def web_post_def user_com_def
        planner_webutil_def sorted_set_def str_field_def dict_get_def direct_target_def
        owner_of_def loaded_def Web_def ActivityPub_def startswith_def dedupe_targets_def
        dict_keys_def dict_lookup_def List.map_filter_def Let_def follower_fan_out_def
        user_com_key_def actor_key_def key_for_def active_followers_def get_multi_users_def)

end
